theory Spec2Isabelle
  imports Complex_Main "HOL-Library.AList"
begin

section \<open>Numbers and the drawing library's arithmetic helpers\<close>

text \<open>
  The sketches compute with JavaScript numbers. They are modelled as real numbers, so
  every statement below is about the exact arithmetic the code describes; rounding of
  IEEE doubles is outside the model.

  The helpers \<open>lerp\<close>, \<open>constrain\<close>, \<open>max\<close> and \<open>pow\<close> come from the p5.js drawing
  library, which is not part of the repository. They are written out here as the library
  documents them:
  \<^verbatim>\<open>lerp(start, stop, amt) = amt * (stop - start) + start\<close>,
  \<^verbatim>\<open>constrain(n, low, high) = max(min(n, high), low)\<close>.
\<close>

definition lerp :: "real \<Rightarrow> real \<Rightarrow> real \<Rightarrow> real" where
  "lerp start stop amt = amt * (stop - start) + start"

definition constrain :: "real \<Rightarrow> real \<Rightarrow> real \<Rightarrow> real" where
  "constrain n low high = max (min n high) low"

text \<open>
  The remainder operator \<^verbatim>\<open>x % y\<close> of the language on numbers: the quotient is truncated
  toward zero, so the result carries the sign of the dividend.
\<close>

definition js_trunc :: "real \<Rightarrow> int" where
  "js_trunc x = (if 0 \<le> x then \<lfloor>x\<rfloor> else \<lceil>x\<rceil>)"

definition js_rem :: "real \<Rightarrow> real \<Rightarrow> real" where
  "js_rem x y = x - y * of_int (js_trunc (x / y))"

section \<open>Fracture scene: fragment separation\<close>

text \<open>
  \<^verbatim>\<open>function easeOutCubic(t) { return 1 - pow(1 - t, 3); }\<close>
\<close>

definition easeOutCubic :: "real \<Rightarrow> real" where
  "easeOutCubic t = 1 - (1 - t) ^ 3"

text \<open>
  The first three statements of the loop body of \<^verbatim>\<open>drawFragments\<close>:
  \<^verbatim>\<open>
  let fractureAmount = max(0, (currentFracture - frag.crackDelay) / (1 - frag.crackDelay));
  fractureAmount = constrain(fractureAmount, 0, 1);
  fractureAmount = easeOutCubic(fractureAmount);
  \<close>
\<close>

definition localFracture :: "real \<Rightarrow> real \<Rightarrow> real" where
  "localFracture currentFracture crackDelay =
     (let fractureAmount = max 0 ((currentFracture - crackDelay) / (1 - crackDelay));
          fractureAmount = constrain fractureAmount 0 1
      in easeOutCubic fractureAmount)"

section \<open>Clock scene: angular difference\<close>

text \<open>
  \<^verbatim>\<open>
  function angleDifference(a, b) {
    let diff = ((b - a + PI) % TWO_PI) - PI;
    if (diff < -PI) diff += TWO_PI;
    return diff;
  }
  \<close>
\<close>

definition angleDifference :: "real \<Rightarrow> real \<Rightarrow> real" where
  "angleDifference a b =
     (let diff = js_rem (b - a + pi) (2 * pi) - pi
      in if diff < - pi then diff + 2 * pi else diff)"

section \<open>Pulse scene: heartbeat waveform and history buffers\<close>

text \<open>
  The sum of Gaussian bumps of \<^verbatim>\<open>generateHeartbeat\<close>, as a function of the reduced
  phase (the value of \<^verbatim>\<open>t\<close> after \<^verbatim>\<open>t = t % 1\<close>).
\<close>

definition heartbeat_bumps :: "real \<Rightarrow> real" where
  "heartbeat_bumps t =
     0 + 0.15 * exp (- (((t - 0.1) * 20) ^ 2))
       - 0.2 * exp (- (((t - 0.25) * 30) ^ 2))
       + 1.0 * exp (- (((t - 0.3) * 25) ^ 2))
       - 0.3 * exp (- (((t - 0.35) * 30) ^ 2))
       + 0.25 * exp (- (((t - 0.55) * 12) ^ 2))"

text \<open>
  The noise term reads the library's coherent noise function and the global
  \<^verbatim>\<open>phase\<close>; both are parameters of the model.
\<close>

definition heartbeat_noise :: "(real \<Rightarrow> real) \<Rightarrow> real \<Rightarrow> real \<Rightarrow> real \<Rightarrow> real" where
  "heartbeat_noise noise phase t intensity = (noise (t * 50 + phase * 10) - 0.5) * intensity * 0.3"

definition generateHeartbeat :: "(real \<Rightarrow> real) \<Rightarrow> real \<Rightarrow> real \<Rightarrow> real \<Rightarrow> real" where
  "generateHeartbeat noise phase t intensity =
     (let t = js_rem t 1
      in heartbeat_bumps t + heartbeat_noise noise phase t intensity)"

text \<open>
  One push to a history buffer, as \<^verbatim>\<open>draw\<close> does it for the main score and for
  each domain:
  \<^verbatim>\<open>history.push(v); if (history.length > maxHistory) history.shift();\<close>
\<close>

definition maxHistory :: nat where
  "maxHistory = 800"

definition push_history :: "real list \<Rightarrow> real \<Rightarrow> real list" where
  "push_history h v = (let h' = h @ [v] in if length h' > maxHistory then tl h' else h')"

section \<open>Shared data module: values received from the feed\<close>

text \<open>
  A value of the language as \<^verbatim>\<open>JSON.parse\<close> can produce it, and \<^verbatim>\<open>undefined\<close> for a
  property that is absent. An object lists its own properties in enumeration order.
\<close>

datatype jsval =
    JUndefined
  | JNull
  | JBool bool
  | JNum real
  | JStr string
  | JArr "jsval list"
  | JObj "(string \<times> jsval) list"

text \<open>Truthiness, as \<^verbatim>\<open>!v\<close>, \<^verbatim>\<open>v && ...\<close> and \<^verbatim>\<open>v || ...\<close> read a value.\<close>

fun truthy :: "jsval \<Rightarrow> bool" where
  "truthy JUndefined = False"
| "truthy JNull = False"
| "truthy (JBool b) = b"
| "truthy (JNum x) = (x \<noteq> 0)"
| "truthy (JStr s) = (s \<noteq> [])"
| "truthy (JArr xs) = True"
| "truthy (JObj ps) = True"

text \<open>\<^verbatim>\<open>typeof v === 'number'\<close> and \<^verbatim>\<open>typeof v === 'object'\<close>.\<close>

fun is_number :: "jsval \<Rightarrow> bool" where
  "is_number (JNum x) = True"
| "is_number v = False"

fun typeof_object :: "jsval \<Rightarrow> bool" where
  "typeof_object JNull = True"
| "typeof_object (JArr xs) = True"
| "typeof_object (JObj ps) = True"
| "typeof_object v = False"

text \<open>The number held by a value whose \<^verbatim>\<open>typeof\<close> is \<^verbatim>\<open>'number'\<close>.\<close>

fun the_num :: "jsval \<Rightarrow> real" where
  "the_num (JNum x) = x"
| "the_num v = 0"

text \<open>The decimal name of an array index, the key under which \<^verbatim>\<open>for ... in\<close> lists it.\<close>

fun dec_string :: "nat \<Rightarrow> string" where
  "dec_string n =
     (if n < 10 then [''0123456789'' ! n]
      else dec_string (n div 10) @ [''0123456789'' ! (n mod 10)])"

declare dec_string.simps [simp del]

text \<open>
  The enumerable own properties of a value: those of an object, and the indexed elements
  of an array. The program reads by name only the properties \<^verbatim>\<open>edge_score\<close>,
  \<^verbatim>\<open>regime\<close>, \<^verbatim>\<open>fragility_ratio\<close>, \<^verbatim>\<open>momentum\<close>, \<^verbatim>\<open>timestamp\<close>,
  \<^verbatim>\<open>domain_scores\<close> and \<^verbatim>\<open>score\<close>, and the keys a \<^verbatim>\<open>for ... in\<close> loop hands it;
  none of these is inherited from a prototype of a parsed value, and none is a property of
  a string, a number or a boolean, so reading one that is not an own property gives
  \<^verbatim>\<open>undefined\<close>.
\<close>

fun own_props :: "jsval \<Rightarrow> (string \<times> jsval) list" where
  "own_props (JObj ps) = ps"
| "own_props (JArr xs) = zip (map dec_string [0..<length xs]) xs"
| "own_props v = []"

definition read_prop :: "jsval \<Rightarrow> string \<Rightarrow> jsval" where
  "read_prop v k = (case map_of (own_props v) k of Some x \<Rightarrow> x | None \<Rightarrow> JUndefined)"

text \<open>
  A property read \<^verbatim>\<open>v.k\<close> or \<^verbatim>\<open>v[k]\<close>: it throws a \<^verbatim>\<open>TypeError\<close> (the result
  \<open>None\<close>) when \<^verbatim>\<open>v\<close> is \<^verbatim>\<open>null\<close> or \<^verbatim>\<open>undefined\<close>.
\<close>

fun get_prop :: "jsval \<Rightarrow> string \<Rightarrow> jsval option" where
  "get_prop JUndefined k = None"
| "get_prop JNull k = None"
| "get_prop v k = Some (read_prop v k)"

text \<open>\<^verbatim>\<open>s.includes(p)\<close> on strings.\<close>

fun js_includes :: "string \<Rightarrow> string \<Rightarrow> bool" where
  "js_includes [] p = (p = [])"
| "js_includes (c # cs) p = (take (length p) (c # cs) = p \<or> js_includes cs p)"

text \<open>
  What the request of \<^verbatim>\<open>fetchLive\<close> comes back with: either \<^verbatim>\<open>fetch\<close> (or the read of
  the body) rejects, with an \<^verbatim>\<open>AbortError\<close> when the 8 second timer fired and a network
  error otherwise, or there is a response with its \<^verbatim>\<open>ok\<close> flag, its
  \<^verbatim>\<open>content-type\<close> header (absent or a string) and its body text.
\<close>

datatype fetch_error =
    AbortError
  | NetworkError
  | HttpError
  | ContentTypeError
  | ParseError
  | InvalidData
  | TypeError

datatype response =
    Rejected fetch_error
  | Response bool "string option" string

section \<open>Shared data module: the state of NerveData\<close>

text \<open>
  Every domain entry \<^verbatim>\<open>{ score: ... }\<close> is an object on the heap. The constructor copies
  \<^verbatim>\<open>this.domains\<close> with a spread, \<^verbatim>\<open>this.targetDomains = { ...this.domains }\<close>, so the
  two dictionaries start out sharing their five entry objects. The model keeps the heap
  explicit: \<open>store\<close> maps the address of an entry object to its \<^verbatim>\<open>score\<close> field, and
  \<open>nextRef\<close> is the address the next object literal gets.

  No method assigns \<^verbatim>\<open>this.domains\<close> or adds or removes one of its keys: which object a
  domain name denotes is fixed by the constructor. It is the constant \<open>domains\<close>, listed
  in insertion order, the order in which \<^verbatim>\<open>for (let d in this.domains)\<close> runs.
\<close>

type_synonym ref = nat

definition domains :: "(string \<times> ref) list" where
  "domains =
     [(''Markets'', 0), (''Climate'', 1), (''Information'', 2),
      (''Social/Conflict'', 3), (''Supply Chain'', 4)]"

record NerveData =
  edgeScore :: real
  fragility :: jsval
  momentum :: jsval
  regime :: jsval
  lastUpdate :: jsval
  simMode :: bool
  apiAvailable :: bool
  simLevel :: nat
  targetEdge :: real
  targetDomains :: "(string \<times> ref) list"
  targetProto :: "ref option"
  lastFetch :: real
  store :: "ref \<Rightarrow> real"
  nextRef :: ref

definition lerpSpeed :: real where
  "lerpSpeed = 0.02"

definition fetchInterval :: real where
  "fetchInterval = 60000"

record sim_level =
  edge :: real
  sim_regime :: string
  sim_fragility :: real
  sim_domains :: "(string \<times> real) list"

definition mk_sim :: "real \<Rightarrow> string \<Rightarrow> real \<Rightarrow> real \<Rightarrow> real \<Rightarrow> real \<Rightarrow> real \<Rightarrow> real \<Rightarrow> sim_level" where
  "mk_sim e r f m c i so su =
     \<lparr>edge = e, sim_regime = r, sim_fragility = f,
      sim_domains = [(''Markets'', m), (''Climate'', c), (''Information'', i),
                     (''Social/Conflict'', so), (''Supply Chain'', su)]\<rparr>"

definition simLevels :: "sim_level list" where
  "simLevels =
     [mk_sim 0.08 ''CALM'' 0.05 0.05 0.03 0.04 0.02 0.1,
      mk_sim 0.22 ''CALM'' 0.15 0.18 0.08 0.15 0.12 0.25,
      mk_sim 0.38 ''ELEVATED'' 0.35 0.35 0.15 0.32 0.28 0.45,
      mk_sim 0.52 ''ELEVATED'' 0.50 0.55 0.25 0.48 0.42 0.55,
      mk_sim 0.65 ''STRESSED'' 0.65 0.72 0.38 0.62 0.58 0.68,
      mk_sim 0.78 ''STRESSED'' 0.78 0.82 0.55 0.75 0.72 0.78,
      mk_sim 0.88 ''CRITICAL'' 0.88 0.92 0.72 0.88 0.85 0.9,
      mk_sim 0.96 ''CRITICAL'' 0.95 0.98 0.88 0.95 0.94 0.97]"

text \<open>The state the constructor leaves, before its background fetch comes back.\<close>

definition constructor :: NerveData where
  "constructor =
     \<lparr>edgeScore = 0.1, fragility = JNum 0.0, momentum = JNum 0.0, regime = JStr ''CALM'',
      lastUpdate = JNull, simMode = True, apiAvailable = False, simLevel = 0,
      targetEdge = 0.1, targetDomains = domains, targetProto = None, lastFetch = 0,
      store = (\<lambda>r. 0)(0 := 0.01, 1 := 0.01, 2 := 0.01, 3 := 0.01, 4 := 0.5),
      nextRef = 5\<rparr>"

text \<open>
  \<^verbatim>\<open>this.targetDomains[d] = { score: v }\<close>: a new object is allocated and the property
  \<^verbatim>\<open>d\<close> of \<^verbatim>\<open>targetDomains\<close> is made to point to it. An existing own property keeps its
  place, a new one goes last; the key \<^verbatim>\<open>__proto__\<close> replaces the prototype instead of
  creating a property.
\<close>

definition assign_target :: "string \<Rightarrow> real \<Rightarrow> NerveData \<Rightarrow> NerveData" where
  "assign_target d v s =
     (let r = nextRef s;
          s1 = s\<lparr>store := (store s)(r := v), nextRef := Suc r\<rparr>
      in if d = ''__proto__'' then s1\<lparr>targetProto := Some r\<rparr>
         else s1\<lparr>targetDomains := AList.update d r (targetDomains s)\<rparr>)"

text \<open>
  The members every plain object inherits from \<^verbatim>\<open>Object.prototype\<close>; each is a function
  or an object, hence truthy. The test \<^verbatim>\<open>this.domains[d]\<close> of \<^verbatim>\<open>fetchLive\<close> is a
  property read, so it finds them as well as the five domain entries.
\<close>

definition Object_prototype_props :: "string list" where
  "Object_prototype_props =
     [''constructor'', ''__defineGetter__'', ''__defineSetter__'', ''hasOwnProperty'',
      ''__lookupGetter__'', ''__lookupSetter__'', ''isPrototypeOf'',
      ''propertyIsEnumerable'', ''toString'', ''valueOf'', ''__proto__'',
      ''toLocaleString'']"

definition domains_truthy :: "string \<Rightarrow> bool" where
  "domains_truthy d = (d \<in> set (map fst domains) \<or> d \<in> set Object_prototype_props)"

section \<open>Shared data module: fetching\<close>

text \<open>
  The checks of \<^verbatim>\<open>fetchLive\<close> up to \<^verbatim>\<open>// Validate data structure\<close>: every
  \<^verbatim>\<open>throw\<close>, the rejection of the request and the \<^verbatim>\<open>TypeError\<close> of reading
  \<^verbatim>\<open>data.edge_score\<close> when the body is the text \<^verbatim>\<open>null\<close> end in \<open>Inl\<close>. Nothing of
  the state is read or written here. \<^verbatim>\<open>JSON.parse\<close> is a parameter: it gives \<open>None\<close>
  where the built-in throws a \<^verbatim>\<open>SyntaxError\<close>.
\<close>

definition validate_response :: "(string \<Rightarrow> jsval option) \<Rightarrow> response \<Rightarrow> fetch_error + jsval" where
  "validate_response JSON_parse resp =
     (case resp of
        Rejected e \<Rightarrow> Inl e
      | Response ok contentType body \<Rightarrow>
          if \<not> ok then Inl HttpError
          else if (case contentType of
                     None \<Rightarrow> True
                   | Some ct \<Rightarrow> ct = [] \<or> \<not> js_includes ct ''application/json'')
          then Inl ContentTypeError
          else (case JSON_parse body of
                  None \<Rightarrow> Inl ParseError
                | Some data \<Rightarrow>
                    (case get_prop data ''edge_score'' of
                       None \<Rightarrow> Inl TypeError
                     | Some e \<Rightarrow>
                         if \<not> is_number e \<or> \<not> truthy (read_prop data ''regime'')
                         then Inl InvalidData
                         else Inr data)))"

text \<open>\<^verbatim>\<open>v || 0.0\<close>\<close>

definition or_zero :: "jsval \<Rightarrow> jsval" where
  "or_zero v = (if truthy v then v else JNum 0.0)"

text \<open>
  The loop over the keys of \<^verbatim>\<open>data.domain_scores\<close>:
  \<^verbatim>\<open>
  for (let d in data.domain_scores) {
    if (this.domains[d] && typeof data.domain_scores[d].score === 'number') {
      this.targetDomains[d] = { score: data.domain_scores[d].score };
    }
  }
  \<close>
  The second component of the result is the exception that ended the loop early, if any:
  reading \<^verbatim>\<open>.score\<close> of an entry that is \<^verbatim>\<open>null\<close> throws. The state is returned as it
  was at that point.
\<close>

fun domain_scores_loop ::
  "jsval \<Rightarrow> string list \<Rightarrow> NerveData \<Rightarrow> NerveData \<times> fetch_error option" where
  "domain_scores_loop ds [] s = (s, None)"
| "domain_scores_loop ds (d # rest) s =
     (if domains_truthy d then
        (case get_prop ds d of
           None \<Rightarrow> (s, Some TypeError)
         | Some entry \<Rightarrow>
             (case get_prop entry ''score'' of
                None \<Rightarrow> (s, Some TypeError)
              | Some sc \<Rightarrow>
                  if is_number sc
                  then domain_scores_loop ds rest (assign_target d (the_num sc) s)
                  else domain_scores_loop ds rest s))
      else domain_scores_loop ds rest s)"

text \<open>The body of \<^verbatim>\<open>if (!this.simMode) { ... }\<close> in \<^verbatim>\<open>fetchLive\<close>.\<close>

definition live_update :: "jsval \<Rightarrow> NerveData \<Rightarrow> NerveData \<times> fetch_error option" where
  "live_update data s =
     (let s1 = s\<lparr>targetEdge := the_num (read_prop data ''edge_score''),
                 fragility := or_zero (read_prop data ''fragility_ratio''),
                 momentum := or_zero (read_prop data ''momentum''),
                 regime := read_prop data ''regime'',
                 lastUpdate := read_prop data ''timestamp''\<rparr>;
          ds = read_prop data ''domain_scores''
      in if truthy ds \<and> typeof_object ds
         then domain_scores_loop ds (map fst (own_props ds)) s1
         else (s1, None))"

text \<open>The \<^verbatim>\<open>catch\<close> block of \<^verbatim>\<open>fetchLive\<close>.\<close>

definition catch_failure :: "NerveData \<Rightarrow> NerveData" where
  "catch_failure s =
     (let s1 = s\<lparr>apiAvailable := False\<rparr>
      in if \<not> simMode s1 then s1\<lparr>simMode := True\<rparr> else s1)"

text \<open>
  \<^verbatim>\<open>fetchLive\<close>, from the moment its request has come back with \<open>resp\<close>, on the
  state \<open>s\<close> of that moment. Before that moment the call changes nothing: it only
  starts the request. The result is the new state and the value the function returns,
  \<open>None\<close> for \<^verbatim>\<open>null\<close>.
\<close>

definition fetchLive ::
  "(string \<Rightarrow> jsval option) \<Rightarrow> response \<Rightarrow> NerveData \<Rightarrow> NerveData \<times> jsval option" where
  "fetchLive JSON_parse resp s =
     (case validate_response JSON_parse resp of
        Inl e \<Rightarrow> (catch_failure s, None)
      | Inr data \<Rightarrow>
          (case (if \<not> simMode s then live_update data s else (s, None)) of
             (s', Some e) \<Rightarrow> (catch_failure s', None)
           | (s', None) \<Rightarrow> (s'\<lparr>apiAvailable := True\<rparr>, Some data)))"

text \<open>
  \<^verbatim>\<open>tryInitialFetch\<close>, from the moment its request has come back. \<^verbatim>\<open>fetchLive\<close> never
  throws, so the \<^verbatim>\<open>catch\<close> block of this function is never entered.
\<close>

definition tryInitialFetch :: "(string \<Rightarrow> jsval option) \<Rightarrow> response \<Rightarrow> NerveData \<Rightarrow> NerveData" where
  "tryInitialFetch JSON_parse resp s =
     (case fetchLive JSON_parse resp s of
        (s', None) \<Rightarrow> s'
      | (s', Some data) \<Rightarrow>
          if truthy data \<and> read_prop data ''edge_score'' \<noteq> JUndefined
          then s'\<lparr>apiAvailable := True, simMode := False\<rparr>
          else s')"

section \<open>Shared data module: the simulation ladder, the mode toggle and the tick\<close>

text \<open>
  \<^verbatim>\<open>setSimLevel(level)\<close>. Its only caller is \<^verbatim>\<open>nextSimLevel\<close>, which passes
  \<^verbatim>\<open>this.simLevel + 1\<close>, so the level is a natural number and the index
  \<^verbatim>\<open>level % this.simLevels.length\<close> is always in range. The test
  \<^verbatim>\<open>if (this.targetDomains[d])\<close> is asked for the five domain names only, which are never
  inherited, so it holds exactly when the name is an own property. \<open>setSimLevel_entry\<close>
  is the body of the loop \<^verbatim>\<open>for (let d in sim.domains)\<close>.
\<close>

definition setSimLevel_entry :: "string \<times> real \<Rightarrow> NerveData \<Rightarrow> NerveData" where
  "setSimLevel_entry p s =
     (case p of (d, v) \<Rightarrow>
        if map_of (targetDomains s) d \<noteq> None then assign_target d v s else s)"

definition setSimLevel :: "nat \<Rightarrow> NerveData \<Rightarrow> NerveData" where
  "setSimLevel level s =
     (let lvl = level mod length simLevels;
          sim = simLevels ! lvl;
          s1 = s\<lparr>simLevel := lvl, simMode := True, targetEdge := edge sim,
                 regime := JStr (sim_regime sim), fragility := JNum (sim_fragility sim)\<rparr>
      in fold setSimLevel_entry (sim_domains sim) s1)"

definition nextSimLevel :: "NerveData \<Rightarrow> NerveData" where
  "nextSimLevel s = setSimLevel (simLevel s + 1) s"

text \<open>
  \<^verbatim>\<open>toggleSimMode\<close>. The second component tells whether \<^verbatim>\<open>this.fetchLive()\<close> was
  called, that is, whether a request was started.
\<close>

definition toggleSimMode :: "NerveData \<Rightarrow> NerveData \<times> bool" where
  "toggleSimMode s =
     (if apiAvailable s then
        (let s1 = s\<lparr>simMode := \<not> simMode s\<rparr>
         in if \<not> simMode s1 then (s1, True) else (s1, False))
      else (s, False))"

text \<open>
  One step of the loop of \<^verbatim>\<open>update\<close>:
  \<^verbatim>\<open>
  if (this.targetDomains[d]) {
    this.domains[d].score = lerp(this.domains[d].score, this.targetDomains[d].score, this.lerpSpeed);
  }
  \<close>
\<close>

definition smooth_domain :: "string \<Rightarrow> NerveData \<Rightarrow> NerveData" where
  "smooth_domain d s =
     (case map_of (targetDomains s) d of
        None \<Rightarrow> s
      | Some t \<Rightarrow>
          (case map_of domains d of
             None \<Rightarrow> s
           | Some r \<Rightarrow> s\<lparr>store := (store s)(r := lerp (store s r) (store s t) lerpSpeed)\<rparr>))"

definition smooth_edge :: "NerveData \<Rightarrow> NerveData" where
  "smooth_edge s = s\<lparr>edgeScore := lerp (edgeScore s) (targetEdge s) lerpSpeed\<rparr>"

text \<open>
  \<^verbatim>\<open>update()\<close> at the time \<open>now\<close> that \<^verbatim>\<open>millis()\<close> reports. The second component
  tells whether the periodic \<^verbatim>\<open>this.fetchLive()\<close> was called.
\<close>

definition update :: "real \<Rightarrow> NerveData \<Rightarrow> NerveData \<times> bool" where
  "update now s =
     (let s1 = smooth_edge s;
          s2 = fold smooth_domain (map fst domains) s1
      in if \<not> simMode s2 \<and> now - lastFetch s2 > fetchInterval
         then (s2\<lparr>lastFetch := now\<rparr>, True)
         else (s2, False))"

text \<open>\<open>N\<close> calls of \<^verbatim>\<open>update\<close> in a row, at the given times, with nothing in between.\<close>

definition ticks :: "real list \<Rightarrow> NerveData \<Rightarrow> NerveData" where
  "ticks nows s = fold (\<lambda>now s. fst (update now s)) nows s"

text \<open>
  The smoothing of \<^verbatim>\<open>update\<close> field by field, to speak of the order: a field is the edge
  score or the score of a named domain.
\<close>

datatype field = EdgeField | DomainField string

fun smooth_field :: "field \<Rightarrow> NerveData \<Rightarrow> NerveData" where
  "smooth_field EdgeField s = smooth_edge s"
| "smooth_field (DomainField d) s = smooth_domain d s"

definition update_fields :: "field list" where
  "update_fields = EdgeField # map DomainField (map fst domains)"

text \<open>
  The handlers every sketch installs:
  \<^verbatim>\<open>function mousePressed() { nerve.simMode = true; nerve.nextSimLevel(); ... }\<close> and, for the
  space key, \<^verbatim>\<open>nerve.toggleSimMode()\<close>.
\<close>

definition mousePressed :: "NerveData \<Rightarrow> NerveData" where
  "mousePressed s = nextSimLevel (s\<lparr>simMode := True\<rparr>)"

definition keyPressed_space :: "NerveData \<Rightarrow> NerveData \<times> bool" where
  "keyPressed_space s = toggleSimMode s"

text \<open>
  A state is well formed when the heap is used as the program uses it: addresses below
  \<open>nextRef\<close> are allocated, the five entry objects of \<^verbatim>\<open>domains\<close> are among them, and a
  target entry is either the domain's own entry object (the sharing the constructor sets
  up) or an object allocated later.
\<close>

definition wf :: "NerveData \<Rightarrow> bool" where
  "wf s = (5 \<le> nextRef s \<and>
           (\<forall>d t. map_of (targetDomains s) d = Some t \<longrightarrow>
                  t < nextRef s \<and> (t < 5 \<longrightarrow> map_of domains d = Some t)))"

text \<open>The values on display: the edge score and the score of each domain.\<close>

definition current_scores :: "NerveData \<Rightarrow> real \<times> (string \<times> real) list" where
  "current_scores s = (edgeScore s, map (\<lambda>(d, r). (d, store s r)) domains)"

text \<open>The score a domain's target entry holds, when the domain has one.\<close>

definition target_score :: "NerveData \<Rightarrow> string \<Rightarrow> real option" where
  "target_score s d = map_option (store s) (map_of (targetDomains s) d)"

text \<open>
  \<^verbatim>\<open>update\<close> with its smoothing steps taken in the order \<open>fs\<close>; the code's order is
  \<open>update_fields\<close>.
\<close>

definition update_in_order :: "field list \<Rightarrow> real \<Rightarrow> NerveData \<Rightarrow> NerveData \<times> bool" where
  "update_in_order fs now s =
     (let s2 = fold smooth_field fs s
      in if \<not> simMode s2 \<and> now - lastFetch s2 > fetchInterval
         then (s2\<lparr>lastFetch := now\<rparr>, True)
         else (s2, False))"

text \<open>
  What one round of smoothing over the set \<open>F\<close> of fields leaves, read off the state
  before the round: the description the order of the steps is compared against.
\<close>

definition smoothed_store :: "field set \<Rightarrow> NerveData \<Rightarrow> ref \<Rightarrow> real" where
  "smoothed_store F s a =
     (if a < 5 \<and> DomainField (fst (domains ! a)) \<in> F then
        (case map_of (targetDomains s) (fst (domains ! a)) of
           None \<Rightarrow> store s a
         | Some t \<Rightarrow> lerp (store s a) (store s t) lerpSpeed)
      else store s a)"

definition smoothed :: "field set \<Rightarrow> NerveData \<Rightarrow> NerveData" where
  "smoothed F s =
     s\<lparr>edgeScore := (if EdgeField \<in> F then lerp (edgeScore s) (targetEdge s) lerpSpeed
                      else edgeScore s),
       store := smoothed_store F s\<rparr>"

text \<open>
  \<open>heap_extends s s'\<close>: from \<open>s\<close> to \<open>s'\<close> the edge score and every object allocated
  in \<open>s\<close> kept their values; objects may have been added.
\<close>

definition heap_extends :: "NerveData \<Rightarrow> NerveData \<Rightarrow> bool" where
  "heap_extends s s' =
     (edgeScore s' = edgeScore s \<and> nextRef s \<le> nextRef s' \<and>
      (\<forall>r. r < nextRef s \<longrightarrow> store s' r = store s r))"

section \<open>Shared data module: what happens to one instance over time\<close>

text \<open>
  The things that touch a \<^verbatim>\<open>NerveData\<close> instance once it is constructed: a frame calls
  \<^verbatim>\<open>update\<close>, the mouse advances the ladder, the space key toggles the mode, and a
  request started earlier comes back (one started by \<^verbatim>\<open>fetchLive\<close>, or the one the
  constructor started through \<^verbatim>\<open>tryInitialFetch\<close>).
\<close>

datatype event =
    Tick real
  | Click
  | Space
  | FetchBack response
  | InitialFetchBack response

fun step :: "(string \<Rightarrow> jsval option) \<Rightarrow> event \<Rightarrow> NerveData \<Rightarrow> NerveData" where
  "step P (Tick now) s = fst (update now s)"
| "step P Click s = mousePressed s"
| "step P Space s = fst (keyPressed_space s)"
| "step P (FetchBack resp) s = fst (fetchLive P resp s)"
| "step P (InitialFetchBack resp) s = tryInitialFetch P resp s"

text \<open>Whether the event is a fetch that succeeds: \<^verbatim>\<open>fetchLive\<close> returns the data.\<close>

fun fetch_returned :: "(string \<Rightarrow> jsval option) \<Rightarrow> event \<Rightarrow> NerveData \<Rightarrow> bool" where
  "fetch_returned P (FetchBack resp) s = (snd (fetchLive P resp s) \<noteq> None)"
| "fetch_returned P (InitialFetchBack resp) s = (snd (fetchLive P resp s) \<noteq> None)"
| "fetch_returned P ev s = False"

text \<open>
  A run of events. The flag beside the state records whether any fetch has succeeded
  so far.
\<close>

fun run ::
  "(string \<Rightarrow> jsval option) \<Rightarrow> event list \<Rightarrow> NerveData \<times> bool \<Rightarrow> NerveData \<times> bool" where
  "run P [] x = x"
| "run P (ev # evs) x = run P evs (step P ev (fst x), snd x \<or> fetch_returned P ev (fst x))"

text \<open>
  The state once the constructor's background fetch has succeeded: \<^verbatim>\<open>tryInitialFetch\<close>
  has set \<^verbatim>\<open>apiAvailable = true\<close> and \<^verbatim>\<open>simMode = false\<close>.
\<close>

definition connected :: NerveData where
  "connected = constructor\<lparr>apiAvailable := True, simMode := False\<rparr>"

text \<open>
  Three payloads. The first is the well-formed one of the specification. In the second,
  the entry of a known domain is \<^verbatim>\<open>null\<close>; in the third, an unknown key carries the
  name of a member of \<^verbatim>\<open>Object.prototype\<close>.
\<close>

definition example_payload :: jsval where
  "example_payload =
     JObj [(''edge_score'', JNum 0.42), (''regime'', JStr ''STRESSED''),
           (''fragility_ratio'', JNum 0.3),
           (''domain_scores'', JObj [(''Markets'', JObj [(''score'', JNum 0.5)])])]"

definition null_entry_payload :: jsval where
  "null_entry_payload =
     JObj [(''edge_score'', JNum 0.42), (''regime'', JStr ''STRESSED''),
           (''fragility_ratio'', JNum 0.3),
           (''domain_scores'', JObj [(''Markets'', JNull)])]"

definition inherited_key_payload :: jsval where
  "inherited_key_payload =
     JObj [(''edge_score'', JNum 0.42), (''regime'', JStr ''STRESSED''),
           (''fragility_ratio'', JNum 0.3),
           (''domain_scores'', JObj [(''toString'', JObj [(''score'', JNum 0.5)])])]"

section \<open>Pulse scene: the history buffers of a frame\<close>

record pulse_state =
  history :: "real list"
  domainHistories :: "(string \<times> real list) list"

text \<open>
  \<^verbatim>\<open>setup\<close> creates an empty buffer per domain name and fills every buffer with
  \<^verbatim>\<open>maxHistory\<close> samples: 0.1 for the main score and 0.01 for each domain.
\<close>

definition pulse_setup :: pulse_state where
  "pulse_setup =
     \<lparr>history = replicate maxHistory 0.1,
      domainHistories = map (\<lambda>d. (d, replicate maxHistory 0.01)) (map fst domains)\<rparr>"

text \<open>
  The body of the loop \<^verbatim>\<open>for (let d of domains)\<close> in \<^verbatim>\<open>draw\<close>, for the domain \<open>d\<close>
  at position \<open>i\<close> of \<^verbatim>\<open>nerve.getDomainNames()\<close>, whose entry object is \<open>r\<close>:
  \<^verbatim>\<open>
  let domainBeat = beatValue * nerve.domains[d].score * 0.4;
  let noise_val = noise(phase * 2 + domains.indexOf(d) * 100) * 0.05;
  domainHistories[d].push(nerve.domains[d].score + domainBeat + noise_val);
  if (domainHistories[d].length > maxHistory) domainHistories[d].shift();
  \<close>
  A buffer that is missing makes \<^verbatim>\<open>domainHistories[d].push\<close> throw: the result \<open>None\<close>.
  \<open>domain_sample\<close> is the value pushed.
\<close>

definition domain_sample ::
  "(real \<Rightarrow> real) \<Rightarrow> real \<Rightarrow> real \<Rightarrow> NerveData \<Rightarrow> nat \<Rightarrow> ref \<Rightarrow> real" where
  "domain_sample noise phase beatValue s i r =
     (let domainBeat = beatValue * store s r * 0.4;
          noise_val = noise (phase * 2 + real i * 100) * 0.05
      in store s r + domainBeat + noise_val)"

definition draw_domain ::
  "(real \<Rightarrow> real) \<Rightarrow> real \<Rightarrow> real \<Rightarrow> NerveData \<Rightarrow> nat \<times> string \<times> ref \<Rightarrow> pulse_state
     \<Rightarrow> pulse_state option" where
  "draw_domain noise phase beatValue s idr p =
     (case idr of (i, d, r) \<Rightarrow>
        (case map_of (domainHistories p) d of
           None \<Rightarrow> None
         | Some h \<Rightarrow>
             Some (p\<lparr>domainHistories :=
               AList.update d (push_history h (domain_sample noise phase beatValue s i r))
                 (domainHistories p)\<rparr>)))"

fun draw_domains ::
  "(real \<Rightarrow> real) \<Rightarrow> real \<Rightarrow> real \<Rightarrow> NerveData \<Rightarrow> (nat \<times> string \<times> ref) list \<Rightarrow> pulse_state
     \<Rightarrow> pulse_state option" where
  "draw_domains noise phase beatValue s [] p = Some p"
| "draw_domains noise phase beatValue s (idr # rest) p =
     (case draw_domain noise phase beatValue s idr p of
        None \<Rightarrow> None
      | Some p' \<Rightarrow> draw_domains noise phase beatValue s rest p')"

text \<open>
  The part of \<^verbatim>\<open>draw\<close> under \<^verbatim>\<open>// Push to history\<close>, for the beat value the frame
  has computed and the state \<^verbatim>\<open>nerve.update()\<close> has left. The main buffer gets
  \<^verbatim>\<open>nerve.edgeScore + beatValue * nerve.edgeScore * 0.5\<close>.
\<close>

definition main_sample :: "real \<Rightarrow> NerveData \<Rightarrow> real" where
  "main_sample beatValue s = edgeScore s + beatValue * edgeScore s * 0.5"

definition draw_history ::
  "(real \<Rightarrow> real) \<Rightarrow> real \<Rightarrow> real \<Rightarrow> NerveData \<Rightarrow> pulse_state \<Rightarrow> pulse_state option" where
  "draw_history noise phase beatValue s p =
     draw_domains noise phase beatValue s (enumerate 0 domains)
       (p\<lparr>history := push_history (history p) (main_sample beatValue s)\<rparr>)"

text \<open>Frame after frame, each with its phase, beat value and data state.\<close>

fun draw_frames ::
  "(real \<Rightarrow> real) \<Rightarrow> (real \<times> real \<times> NerveData) list \<Rightarrow> pulse_state \<Rightarrow> pulse_state option" where
  "draw_frames noise [] p = Some p"
| "draw_frames noise ((phase, beatValue, s) # rest) p =
     (case draw_history noise phase beatValue s p of
        None \<Rightarrow> None
      | Some p' \<Rightarrow> draw_frames noise rest p')"

text \<open>Every buffer is there and holds exactly \<open>n\<close> samples.\<close>

definition buffers_hold :: "nat \<Rightarrow> pulse_state \<Rightarrow> bool" where
  "buffers_hold n p =
     (length (history p) = n \<and>
      list_all (\<lambda>d. map_option length (map_of (domainHistories p) d) = Some n) (map fst domains))"

section \<open>Ocean scene: the flow field\<close>

text \<open>\<^verbatim>\<open>atan2(y, x)\<close>, the angle of the point \<open>(x, y)\<close> in \<open>(-\<pi>, \<pi>]\<close>; 0 at the origin.\<close>

definition atan2 :: "real \<Rightarrow> real \<Rightarrow> real" where
  "atan2 y x =
     (if 0 < x then arctan (y / x)
      else if x < 0 then (if 0 \<le> y then arctan (y / x) + pi else arctan (y / x) - pi)
      else if 0 < y then pi / 2
      else if y < 0 then - (pi / 2)
      else 0)"

record domainCurrent =
  dc_x :: real
  dc_y :: real
  dc_radius :: real
  dc_strength :: real
  dc_angle :: real
  dc_rotSpeed :: real

text \<open>
  The body of \<^verbatim>\<open>for (let dc of domainCurrents)\<close> in \<^verbatim>\<open>updateFlowField\<close>, for the cell
  at \<open>(px, py)\<close> whose angle so far is \<open>angle\<close>:
  \<^verbatim>\<open>
  let dx = px - dc.x;
  let dy = py - dc.y;
  let dist = sqrt(dx * dx + dy * dy);
  if (dist < dc.radius) {
    let influence = (1 - dist / dc.radius) * dc.strength;
    let currentAngle = atan2(dy, dx) + HALF_PI + dc.angle;
    angle = lerp(angle, currentAngle, influence * 0.5);
  }
  \<close>
\<close>

definition current_target :: "real \<Rightarrow> real \<Rightarrow> domainCurrent \<Rightarrow> real" where
  "current_target px py dc = atan2 (py - dc_y dc) (px - dc_x dc) + pi / 2 + dc_angle dc"

definition current_dist :: "real \<Rightarrow> real \<Rightarrow> domainCurrent \<Rightarrow> real" where
  "current_dist px py dc =
     sqrt ((px - dc_x dc) * (px - dc_x dc) + (py - dc_y dc) * (py - dc_y dc))"

definition current_blend :: "real \<Rightarrow> real \<Rightarrow> domainCurrent \<Rightarrow> real \<Rightarrow> real" where
  "current_blend px py dc angle =
     (let dist = current_dist px py dc
      in if dist < dc_radius dc then
           (let influence = (1 - dist / dc_radius dc) * dc_strength dc;
                currentAngle = current_target px py dc
            in lerp angle currentAngle (influence * 0.5))
         else angle)"

text \<open>
  The pointer:
  \<^verbatim>\<open>
  let mx = mouseX - px;
  let my = mouseY - py;
  let md = sqrt(mx * mx + my * my);
  if (md < 150) {
    let mouseAngle = atan2(my, mx) + PI;
    let mouseInfluence = (1 - md / 150) * 0.3;
    angle = lerp(angle, mouseAngle, mouseInfluence);
  }
  \<close>
\<close>

definition mouse_blend :: "real \<Rightarrow> real \<Rightarrow> real \<Rightarrow> real \<Rightarrow> real \<Rightarrow> real" where
  "mouse_blend px py mouseX mouseY angle =
     (let mx = mouseX - px;
          my = mouseY - py;
          md = sqrt (mx * mx + my * my)
      in if md < 150 then
           (let mouseAngle = atan2 my mx + pi;
                mouseInfluence = (1 - md / 150) * 0.3
            in lerp angle mouseAngle mouseInfluence)
         else angle)"

text \<open>
  The angle \<^verbatim>\<open>updateFlowField\<close> stores for the cell at \<open>(px, py)\<close>. The library's
  three-argument noise function is a parameter.
\<close>

definition cell_angle ::
  "(real \<Rightarrow> real \<Rightarrow> real \<Rightarrow> real) \<Rightarrow> real \<Rightarrow> real \<Rightarrow> domainCurrent list \<Rightarrow> real \<Rightarrow> real
     \<Rightarrow> real \<Rightarrow> real \<Rightarrow> real" where
  "cell_angle noise3 phase edge_score domainCurrents mouseX mouseY px py =
     (let noiseScale = 0.003 + edge_score * 0.008;
          turbulence = edge_score * 2;
          angle = noise3 (px * noiseScale) (py * noiseScale) phase * (2 * pi) * (2 + turbulence);
          angle = fold (current_blend px py) domainCurrents angle
      in mouse_blend px py mouseX mouseY angle)"

text \<open>
  The specification's reading of a blend, to compare the code with: move from \<open>a\<close>
  toward \<open>b\<close> by the fraction \<open>w\<close> of the shortest signed angular difference. The
  difference is the one the clock scene's \<open>angleDifference\<close> computes.
\<close>

definition shortest_path_blend :: "real \<Rightarrow> real \<Rightarrow> real \<Rightarrow> real" where
  "shortest_path_blend a b w = a + w * angleDifference a b"

text \<open>
  A domain current at full strength that sits on the cell at \<open>(200, 200)\<close>, with rotation
  angle 0.
\<close>

definition example_current :: domainCurrent where
  "example_current =
     \<lparr>dc_x = 200, dc_y = 200, dc_radius = 100, dc_strength = 1, dc_angle = 0,
      dc_rotSpeed = 0\<rparr>"

section \<open>Properties of the arithmetic helpers\<close>

lemma lerp_affine: "lerp a b w = a + (b - a) * w"
  by (simp add: lerp_def algebra_simps)

lemma lerp_closed_step: "T - (T - lerp e T k) * (1 - k) ^ n = T - (T - e) * (1 - k) ^ Suc n"
  by (simp add: lerp_def algebra_simps)

lemma js_rem_nonneg:
  assumes "0 < y" "0 \<le> x"
  shows "0 \<le> js_rem x y \<and> js_rem x y < y"
proof -
  have q: "0 \<le> x / y" using assms by simp
  define n where "n = \<lfloor>x / y\<rfloor>"
  have 1: "of_int n \<le> x / y" "x / y < of_int n + 1" unfolding n_def by linarith+
  have a: "y * of_int n \<le> x" using 1(1) assms(1) by (simp add: pos_le_divide_eq mult.commute)
  have b: "x < y * (of_int n + 1)" using 1(2) assms(1) by (simp add: pos_divide_less_eq mult.commute)
  have "js_rem x y = x - y * of_int n" using q by (simp add: js_rem_def js_trunc_def n_def)
  then show ?thesis using a b by (simp add: algebra_simps)
qed

lemma js_rem_neg:
  assumes "0 < y" "x < 0"
  shows "- y < js_rem x y \<and> js_rem x y \<le> 0"
proof -
  have q: "\<not> 0 \<le> x / y" using assms by (simp add: divide_less_0_iff not_le)
  define n where "n = \<lceil>x / y\<rceil>"
  have 1: "x / y \<le> of_int n" "of_int n - 1 < x / y" unfolding n_def by linarith+
  have a: "x \<le> y * of_int n" using 1(1) assms(1) by (simp add: pos_divide_le_eq mult.commute)
  have b: "y * (of_int n - 1) < x" using 1(2) assms(1) by (simp add: pos_less_divide_eq mult.commute)
  have "js_rem x y = x - y * of_int n" using q by (simp add: js_rem_def js_trunc_def n_def)
  then show ?thesis using a b by (simp add: algebra_simps)
qed

lemma js_rem_cong: "\<exists>k::int. js_rem x y = x + y * of_int k"
  by (rule exI[of _ "- js_trunc (x / y)"]) (simp add: js_rem_def)

lemma js_rem_1_shift: "0 \<le> t \<Longrightarrow> js_rem (t + 1) 1 = js_rem t 1"
  by (simp add: js_rem_def js_trunc_def)

section \<open>Fracture scene: the separation of a fragment grows with the fracture\<close>

lemma easeOutCubic_mono:
  assumes "s \<le> t"
  shows "easeOutCubic s \<le> easeOutCubic t"
proof -
  have "(1 - t) ^ 3 \<le> (1 - s) ^ 3"
    using assms by (intro power_mono_odd) auto
  then show ?thesis by (simp add: easeOutCubic_def)
qed

text \<open>
  Claim C7. For a release threshold \<open>crackDelay\<close> strictly between 0 and 1, the eased local
  fracture of a fragment does not decrease when the global fracture amount grows, and it
  is 0 as long as the global amount has not passed the threshold.
\<close>

theorem localFracture_monotone:
  assumes "0 < crackDelay" "crackDelay < 1"
  shows "(f1 \<le> f2 \<longrightarrow> localFracture f1 crackDelay \<le> localFracture f2 crackDelay) \<and>
         (f1 \<le> crackDelay \<longrightarrow> localFracture f1 crackDelay = 0)"
proof -
  have pos: "0 < 1 - crackDelay" using assms by simp
  have m: "f1 \<le> f2 \<Longrightarrow> (f1 - crackDelay) / (1 - crackDelay) \<le> (f2 - crackDelay) / (1 - crackDelay)"
    using pos by (simp add: divide_right_mono)
  have z: "f1 \<le> crackDelay \<Longrightarrow> (f1 - crackDelay) / (1 - crackDelay) \<le> 0"
    using pos by (simp add: divide_le_0_iff)
  show ?thesis
  proof (intro conjI impI)
    assume "f1 \<le> f2"
    then have "constrain (max 0 ((f1 - crackDelay) / (1 - crackDelay))) 0 1
               \<le> constrain (max 0 ((f2 - crackDelay) / (1 - crackDelay))) 0 1"
      using m unfolding constrain_def by auto
    then show "localFracture f1 crackDelay \<le> localFracture f2 crackDelay"
      unfolding localFracture_def Let_def by (rule easeOutCubic_mono)
  next
    assume "f1 \<le> crackDelay"
    then have "max 0 ((f1 - crackDelay) / (1 - crackDelay)) = 0" using z by simp
    then show "localFracture f1 crackDelay = 0"
      by (simp add: localFracture_def constrain_def easeOutCubic_def)
  qed
qed

theorem localFracture_monotone_witness:
  "(0::real) < 1 / 2 \<and> (1 / 2 :: real) < 1 \<and> (1 / 4 :: real) \<le> 3 / 4 \<and>
   localFracture (1 / 4) (1 / 2) \<le> localFracture (3 / 4) (1 / 2) \<and>
   localFracture (1 / 4) (1 / 2) = 0 \<and> localFracture (3 / 4) (1 / 2) = 7 / 8"
proof -
  have v: "localFracture (3 / 4) (1 / 2) = 7 / 8"
    by (simp add: localFracture_def constrain_def easeOutCubic_def power3_eq_cube)
  show ?thesis
    using localFracture_monotone[of "1 / 2" "1 / 4" "3 / 4"] v by simp
qed

section \<open>Pulse scene: the heartbeat repeats with period 1\<close>

text \<open>
  Claim C8. For a phase \<open>t \<ge> 0\<close>, the sum of Gaussian bumps of the heartbeat is the same
  at \<open>t + 1\<close> as at \<open>t\<close>, and so is the whole waveform for a fixed noise function and
  global phase. Taking the noise term away leaves the bumps, a function of \<open>t\<close> alone;
  at intensity 0 the noise term vanishes.
\<close>

theorem generateHeartbeat_periodic:
  assumes "0 \<le> t"
  shows "heartbeat_bumps (js_rem (t + 1) 1) = heartbeat_bumps (js_rem t 1) \<and>
         generateHeartbeat noise phase (t + 1) intensity = generateHeartbeat noise phase t intensity \<and>
         generateHeartbeat noise phase t intensity - heartbeat_noise noise phase (js_rem t 1) intensity
           = heartbeat_bumps (js_rem t 1) \<and>
         generateHeartbeat noise phase t 0 = heartbeat_bumps (js_rem t 1)"
proof -
  have shift: "js_rem (t + 1) 1 = js_rem t 1" using assms by (rule js_rem_1_shift)
  have quiet: "heartbeat_noise noise phase u 0 = 0" for u
    by (simp add: heartbeat_noise_def)
  show ?thesis
    by (simp add: generateHeartbeat_def Let_def shift quiet)
qed

theorem generateHeartbeat_periodic_witness:
  "(0::real) \<le> 1 / 4 \<and>
   generateHeartbeat (\<lambda>x. 0) 0 (1 / 4 + 1) 1 = generateHeartbeat (\<lambda>x. 0) 0 (1 / 4) 1 \<and>
   js_rem (1 / 4 + 1) 1 = 1 / 4"
proof -
  have "js_rem (1 / 4 + 1) 1 = 1 / 4"
    by (simp add: js_rem_def js_trunc_def)
  then show ?thesis
    using generateHeartbeat_periodic[of "1 / 4" "\<lambda>x. 0" 0 1] by simp
qed

section \<open>Clock scene: the range of the angular difference\<close>

text \<open>
  Claim C10, as amended. For all angles \<open>a\<close> and \<open>b\<close>, \<open>angleDifference a b\<close> lies in
  the half-open interval from \<open>-\<pi>\<close> (included) to \<open>\<pi>\<close> (excluded) and differs from
  \<open>b - a\<close> by a whole number of turns, also when \<open>b - a + \<pi>\<close> is negative.
\<close>

theorem angleDifference_range:
  "- pi \<le> angleDifference a b \<and> angleDifference a b < pi \<and>
   (\<exists>k::int. angleDifference a b = b - a + 2 * pi * of_int k)"
proof -
  define x where "x = b - a + pi"
  define r where "r = js_rem x (2 * pi)"
  have p: "0 < 2 * pi" by simp
  have ad: "angleDifference a b = (if r - pi < - pi then r - pi + 2 * pi else r - pi)"
    by (simp add: angleDifference_def r_def x_def Let_def)
  obtain k :: int where k: "r = x + 2 * pi * of_int k"
    unfolding r_def using js_rem_cong by blast
  have rng: "- pi \<le> angleDifference a b \<and> angleDifference a b < pi"
  proof (cases "0 \<le> x")
    case True
    then have "0 \<le> r \<and> r < 2 * pi" unfolding r_def using js_rem_nonneg[OF p] by blast
    then show ?thesis using ad by auto
  next
    case False
    then have "- (2 * pi) < r \<and> r \<le> 0" unfolding r_def using js_rem_neg[OF p] by simp
    then show ?thesis using ad by auto
  qed
  have "\<exists>k::int. angleDifference a b = b - a + 2 * pi * of_int k"
  proof (cases "r - pi < - pi")
    case True
    then have "angleDifference a b = b - a + 2 * pi * of_int (k + 1)"
      using ad k by (simp add: x_def algebra_simps)
    then show ?thesis by blast
  next
    case False
    then have "angleDifference a b = b - a + 2 * pi * of_int k"
      using ad k by (simp add: x_def algebra_simps)
    then show ?thesis by blast
  qed
  with rng show ?thesis by blast
qed

text \<open>
  The claim as written puts the result in the interval open at \<open>-\<pi>\<close> and closed at
  \<open>\<pi>\<close>. From \<open>a = \<pi>\<close> to \<open>b = 0\<close> the function returns \<open>-\<pi>\<close>.
\<close>

theorem angleDifference_minus_pi:
  "angleDifference pi 0 = - pi \<and> \<not> (- pi < angleDifference pi 0)"
  by (simp add: angleDifference_def js_rem_def js_trunc_def)

section \<open>Shared data module: what the operations leave untouched\<close>

lemma heap_extends_refl: "heap_extends s s"
  by (simp add: heap_extends_def)

lemma heap_extends_trans: "heap_extends s s1 \<Longrightarrow> heap_extends s1 s2 \<Longrightarrow> heap_extends s s2"
  by (auto simp: heap_extends_def)

lemma heap_extends_assign_target: "heap_extends s (assign_target d v s)"
  by (simp add: heap_extends_def assign_target_def Let_def)

lemma wf_assign_target: "wf s \<Longrightarrow> wf (assign_target d v s)"
  by (auto simp: wf_def assign_target_def Let_def update_conv' less_Suc_eq split: if_splits)

lemma domain_scores_loop_extends:
  "heap_extends s (fst (domain_scores_loop ds keys s))"
proof (induction keys arbitrary: s)
  case Nil
  show ?case by (simp add: heap_extends_refl)
next
  case (Cons d rest)
  have step: "heap_extends s (fst (domain_scores_loop ds rest (assign_target d v s)))" for v
    using heap_extends_trans[OF heap_extends_assign_target Cons.IH] .
  show ?case
    using Cons.IH[of s] step
    by (auto simp: heap_extends_refl split: option.splits)
qed

lemma domain_scores_loop_wf:
  "wf s \<Longrightarrow> wf (fst (domain_scores_loop ds keys s))"
proof (induction keys arbitrary: s)
  case Nil
  then show ?case by simp
next
  case (Cons d rest)
  then show ?case
    by (auto simp: wf_assign_target split: option.splits)
qed

lemma live_update_extends: "heap_extends s (fst (live_update data s))"
proof -
  define s1 where "s1 = s\<lparr>targetEdge := the_num (read_prop data ''edge_score''),
                 fragility := or_zero (read_prop data ''fragility_ratio''),
                 momentum := or_zero (read_prop data ''momentum''),
                 regime := read_prop data ''regime'',
                 lastUpdate := read_prop data ''timestamp''\<rparr>"
  have a: "heap_extends s s1" by (simp add: heap_extends_def s1_def)
  have b: "heap_extends s1 (fst (domain_scores_loop ds keys s1))" for ds keys
    by (rule domain_scores_loop_extends)
  show ?thesis
    using a heap_extends_trans[OF a b]
    by (simp add: live_update_def Let_def s1_def[symmetric])
qed

lemma live_update_wf: "wf s \<Longrightarrow> wf (fst (live_update data s))"
proof -
  assume w: "wf s"
  define s1 where "s1 = s\<lparr>targetEdge := the_num (read_prop data ''edge_score''),
                 fragility := or_zero (read_prop data ''fragility_ratio''),
                 momentum := or_zero (read_prop data ''momentum''),
                 regime := read_prop data ''regime'',
                 lastUpdate := read_prop data ''timestamp''\<rparr>"
  have a: "wf s1" using w by (simp add: wf_def s1_def)
  show ?thesis
    using a domain_scores_loop_wf[OF a]
    by (simp add: live_update_def Let_def s1_def[symmetric])
qed

lemma catch_failure_extends: "heap_extends s (catch_failure s)"
  by (simp add: heap_extends_def catch_failure_def Let_def)

lemma catch_failure_wf: "wf s \<Longrightarrow> wf (catch_failure s)"
  by (simp add: wf_def catch_failure_def Let_def)

lemma fetchLive_extends: "heap_extends s (fst (fetchLive P resp s))"
proof -
  have c: "heap_extends s (catch_failure (fst (live_update data s)))" for data
    using heap_extends_trans[OF live_update_extends catch_failure_extends] .
  have d: "heap_extends s ((fst (live_update data s))\<lparr>apiAvailable := True\<rparr>)" for data
    using live_update_extends[of s data] by (simp add: heap_extends_def)
  have e: "heap_extends s (s\<lparr>apiAvailable := True\<rparr>)" by (simp add: heap_extends_def)
  show ?thesis
    using c d e catch_failure_extends[of s]
    by (auto simp: fetchLive_def split: sum.splits prod.splits option.splits if_splits)
       (metis fst_conv)+
qed

lemma fetchLive_wf: "wf s \<Longrightarrow> wf (fst (fetchLive P resp s))"
proof -
  assume w: "wf s"
  have c: "wf (catch_failure (fst (live_update data s)))" for data
    using catch_failure_wf[OF live_update_wf[OF w]] .
  have d: "wf ((fst (live_update data s))\<lparr>apiAvailable := True\<rparr>)" for data
    using live_update_wf[OF w, of data] by (simp add: wf_def)
  have e: "wf (s\<lparr>apiAvailable := True\<rparr>)" using w by (simp add: wf_def)
  show ?thesis
    using c d e catch_failure_wf[OF w]
    by (auto simp: fetchLive_def split: sum.splits prod.splits option.splits if_splits)
       (metis fst_conv)+
qed

lemma setSimLevel_fold_extends:
  "heap_extends s (fold setSimLevel_entry ps s)"
proof (induction ps arbitrary: s)
  case Nil
  show ?case by (simp add: heap_extends_refl)
next
  case (Cons p ps)
  obtain d v where p: "p = (d, v)" by (cases p)
  show ?case
    using Cons.IH[of s] heap_extends_trans[OF heap_extends_assign_target[of s d v] Cons.IH]
    by (simp add: p setSimLevel_entry_def)
qed

lemma setSimLevel_fold_wf:
  "wf s \<Longrightarrow> wf (fold setSimLevel_entry ps s)"
proof (induction ps arbitrary: s)
  case Nil
  then show ?case by simp
next
  case (Cons p ps)
  obtain d v where p: "p = (d, v)" by (cases p)
  show ?case
    using Cons.IH[OF Cons.prems] Cons.IH[OF wf_assign_target[OF Cons.prems, of d v]]
    by (simp add: p setSimLevel_entry_def)
qed

lemma setSimLevel_extends: "heap_extends s (setSimLevel level s)"
proof -
  define s1 where "s1 = s\<lparr>simLevel := level mod length simLevels, simMode := True,
      targetEdge := edge (simLevels ! (level mod length simLevels)),
      regime := JStr (sim_regime (simLevels ! (level mod length simLevels))),
      fragility := JNum (sim_fragility (simLevels ! (level mod length simLevels)))\<rparr>"
  have a: "heap_extends s s1" by (simp add: heap_extends_def s1_def)
  show ?thesis
    using heap_extends_trans[OF a setSimLevel_fold_extends]
    by (simp add: setSimLevel_def Let_def s1_def[symmetric])
qed

lemma setSimLevel_wf: "wf s \<Longrightarrow> wf (setSimLevel level s)"
proof -
  assume w: "wf s"
  define s1 where "s1 = s\<lparr>simLevel := level mod length simLevels, simMode := True,
      targetEdge := edge (simLevels ! (level mod length simLevels)),
      regime := JStr (sim_regime (simLevels ! (level mod length simLevels))),
      fragility := JNum (sim_fragility (simLevels ! (level mod length simLevels)))\<rparr>"
  have a: "wf s1" using w by (simp add: wf_def s1_def)
  show ?thesis
    using setSimLevel_fold_wf[OF a]
    by (simp add: setSimLevel_def Let_def s1_def[symmetric])
qed

lemma current_scores_extends:
  assumes "heap_extends s s'" "5 \<le> nextRef s"
  shows "current_scores s' = current_scores s"
  using assms by (simp add: current_scores_def heap_extends_def domains_def)

lemma toggleSimMode_extends: "heap_extends s (fst (toggleSimMode s))"
  by (simp add: toggleSimMode_def heap_extends_def Let_def)

lemma tryInitialFetch_extends: "heap_extends s (tryInitialFetch P resp s)"
proof -
  obtain s' r where f: "fetchLive P resp s = (s', r)" by (cases "fetchLive P resp s")
  have a: "heap_extends s s'" using fetchLive_extends[of s P resp] f by simp
  have b: "heap_extends s (s'\<lparr>apiAvailable := True, simMode := False\<rparr>)"
    using a by (simp add: heap_extends_def)
  show ?thesis using a b by (simp add: tryInitialFetch_def f split: option.splits)
qed

lemma mousePressed_extends: "heap_extends s (mousePressed s)"
proof -
  have a: "heap_extends s (s\<lparr>simMode := True\<rparr>)" by (simp add: heap_extends_def)
  show ?thesis
    unfolding mousePressed_def nextSimLevel_def
    using heap_extends_trans[OF a setSimLevel_extends] by simp
qed

section \<open>Shared data module: smoothing\<close>

lemma domains_Some: "map_of domains d = Some r \<Longrightarrow> r < 5 \<and> fst (domains ! r) = d"
  by (auto simp: domains_def split: if_splits)

lemma domains_None: "map_of domains d = None \<Longrightarrow> a < 5 \<Longrightarrow> fst (domains ! a) \<noteq> d"
  by (auto simp: domains_def less_Suc_eq numeral_eq_Suc split: if_splits)

lemma domains_at: "a < 5 \<Longrightarrow> map_of domains (fst (domains ! a)) = Some a"
  by (auto simp: domains_def less_Suc_eq numeral_eq_Suc)

lemma smoothed_empty: "smoothed {} s = s"
proof -
  have "smoothed_store {} s = store s"
    by (rule ext) (simp add: smoothed_store_def)
  then show ?thesis by (simp add: smoothed_def)
qed

lemma smooth_field_smoothed:
  assumes w: "wf s" and nin: "f \<notin> F"
  shows "smooth_field f (smoothed F s) = smoothed (insert f F) s"
proof (cases f)
  case EdgeField
  have "smoothed_store (insert EdgeField F) s = smoothed_store F s"
    by (rule ext) (simp add: smoothed_store_def)
  then show ?thesis using nin EdgeField
    by (simp add: smoothed_def smooth_edge_def)
next
  case (DomainField d)
  show ?thesis
  proof (cases "map_of (targetDomains s) d")
    case None
    have "smoothed_store (insert (DomainField d) F) s = smoothed_store F s"
      using None by - (rule ext, auto simp: smoothed_store_def)
    then show ?thesis using DomainField None nin
      by (simp add: smoothed_def smooth_domain_def)
  next
    case (Some t)
    show ?thesis
    proof (cases "map_of domains d")
      case None
      have "smoothed_store (insert (DomainField d) F) s = smoothed_store F s"
        by (rule ext) (auto simp: smoothed_store_def dest: domains_None[OF None])
      then show ?thesis using DomainField None Some nin
        by (simp add: smoothed_def smooth_domain_def)
    next
      case r: (Some r)
      have r5: "r < 5" and rn: "fst (domains ! r) = d" using domains_Some[OF r] by auto
      have sr: "smoothed_store F s r = store s r"
        using nin DomainField rn by (simp add: smoothed_store_def)
      have tcases: "t = r \<or> 5 \<le> t"
        using w Some r by (auto simp: wf_def) 
      have st: "smoothed_store F s t = store s t"
        using tcases sr by (auto simp: smoothed_store_def)
      have "smoothed_store (insert (DomainField d) F) s 
            = (smoothed_store F s)(r := lerp (store s r) (store s t) lerpSpeed)"
      proof (rule ext)
        fix a
        show "smoothed_store (insert (DomainField d) F) s a
            = ((smoothed_store F s)(r := lerp (store s r) (store s t) lerpSpeed)) a"
        proof (cases "a = r")
          case True
          then show ?thesis using r5 rn Some by (simp add: smoothed_store_def)
        next
          case False
          have "a < 5 \<Longrightarrow> fst (domains ! a) \<noteq> d"
            using False r domains_at[of a] by auto
          then show ?thesis using False by (auto simp: smoothed_store_def)
        qed
      qed
      then show ?thesis using DomainField Some r nin sr st
        by (simp add: smoothed_def smooth_domain_def)
    qed
  qed
qed

lemma fold_smooth_field:
  assumes w: "wf s"
  shows "distinct fs \<Longrightarrow> fold smooth_field fs s = smoothed (set fs) s"
proof (induction fs rule: rev_induct)
  case Nil
  show ?case by (simp add: smoothed_empty)
next
  case (snoc f fs)
  then have d: "distinct fs" and nin: "f \<notin> set fs" by auto
  have "fold smooth_field (fs @ [f]) s = smooth_field f (smoothed (set fs) s)"
    using snoc.IH[OF d] by simp
  also have "\<dots> = smoothed (insert f (set fs)) s"
    by (rule smooth_field_smoothed[OF w nin])
  finally show ?case by simp
qed

lemma update_fields_distinct: "distinct update_fields"
  by (simp add: update_fields_def domains_def)

lemma update_smoothing:
  "fold smooth_domain (map fst domains) (smooth_edge s) = fold smooth_field update_fields s"
  by (simp add: update_fields_def domains_def)

lemma update_state:
  "fst (update now s) =
     (let s2 = fold smooth_field update_fields s
      in if \<not> simMode s2 \<and> now - lastFetch s2 > fetchInterval then s2\<lparr>lastFetch := now\<rparr> else s2)"
  by (simp add: update_def Let_def update_smoothing)

lemma in_update_fields: "map_of domains d = Some r \<Longrightarrow> DomainField d \<in> set update_fields"
  by (auto simp: update_fields_def domains_def split: if_splits)

lemma update_wf: "wf s \<Longrightarrow> wf (fst (update now s))"
  using fold_smooth_field[OF _ update_fields_distinct, of s]
  by (simp add: update_state Let_def smoothed_def wf_def)

lemma update_targets: "wf s \<Longrightarrow> targetEdge (fst (update now s)) = targetEdge s \<and> targetDomains (fst (update now s)) = targetDomains s \<and> nextRef (fst (update now s)) = nextRef s"
  using fold_smooth_field[OF _ update_fields_distinct, of s]
  by (simp add: update_state Let_def smoothed_def)

lemma update_store: "wf s \<Longrightarrow> store (fst (update now s)) = smoothed_store (set update_fields) s"
  using fold_smooth_field[OF _ update_fields_distinct, of s]
  by (simp add: update_state Let_def smoothed_def)

lemma update_domain:
  assumes w: "wf s" and r: "map_of domains d = Some r" and t: "map_of (targetDomains s) d = Some t"
  shows "store (fst (update now s)) r = lerp (store s r) (store s t) lerpSpeed"
    and "store (fst (update now s)) t = store s t"
proof -
  have r5: "r < 5" and rn: "fst (domains ! r) = d" using domains_Some[OF r] by auto
  show a: "store (fst (update now s)) r = lerp (store s r) (store s t) lerpSpeed"
    using r5 rn t in_update_fields[OF r] by (simp add: update_store[OF w] smoothed_store_def)
  have tcases: "t = r \<or> 5 \<le> t" using w t r by (auto simp: wf_def)
  then show "store (fst (update now s)) t = store s t"
  proof
    assume "t = r"
    then show ?thesis using a by (simp add: lerp_def)
  next
    assume "5 \<le> t"
    then show ?thesis by (simp add: update_store[OF w] smoothed_store_def)
  qed
qed

lemma ticks_wf: "wf s \<Longrightarrow> wf (ticks nows s)"
  by (induction nows arbitrary: s) (simp_all add: ticks_def update_wf)

lemma ticks_Cons: "ticks (now # nows) s = ticks nows (fst (update now s))"
  by (simp add: ticks_def)

lemma ticks_domain:
  "wf s \<Longrightarrow> map_of domains d = Some r \<Longrightarrow> map_of (targetDomains s) d = Some t \<Longrightarrow>
     store (ticks nows s) r = store s t - (store s t - store s r) * (1 - lerpSpeed) ^ length nows
     \<and> store (ticks nows s) t = store s t"
proof (induction nows arbitrary: s)
  case Nil
  show ?case by (simp add: ticks_def)
next
  case (Cons now nows)
  let ?s1 = "fst (update now s)"
  have t1: "map_of (targetDomains ?s1) d = Some t"
    using update_targets[OF Cons.prems(1), of now] Cons.prems(3) by simp
  show ?case
    using Cons.IH[OF update_wf[OF Cons.prems(1), of now] Cons.prems(2) t1]
      update_domain[OF Cons.prems]
    by (simp only: ticks_Cons lerp_closed_step list.size) simp
qed

lemma order_independent:
  assumes "wf s" "distinct fs" "set fs = set update_fields"
  shows "fold smooth_field fs s = fold smooth_field update_fields s"
  using assms by (simp add: fold_smooth_field update_fields_distinct)

lemma fold_smooth_domain_fields:
  "edgeScore (fold smooth_domain ds s) = edgeScore s \<and>
   targetEdge (fold smooth_domain ds s) = targetEdge s \<and>
   simMode (fold smooth_domain ds s) = simMode s \<and>
   apiAvailable (fold smooth_domain ds s) = apiAvailable s"
  by (induction ds arbitrary: s) (auto simp: smooth_domain_def split: option.splits)

lemma update_edge_step:
  "edgeScore (fst (update now s)) = lerp (edgeScore s) (targetEdge s) lerpSpeed \<and>
   targetEdge (fst (update now s)) = targetEdge s"
  by (simp add: update_def Let_def fold_smooth_domain_fields smooth_edge_def)

lemma update_flags:
  "simMode (fst (update now s)) = simMode s \<and> apiAvailable (fst (update now s)) = apiAvailable s"
  by (simp add: update_def Let_def fold_smooth_domain_fields smooth_edge_def)

lemma ticks_edge_closed:
  "edgeScore (ticks nows s) =
     targetEdge s - (targetEdge s - edgeScore s) * (1 - lerpSpeed) ^ length nows \<and>
   targetEdge (ticks nows s) = targetEdge s"
proof (induction nows arbitrary: s)
  case Nil
  show ?case by (simp add: ticks_def)
next
  case (Cons now nows)
  show ?case
    using Cons.IH[of "fst (update now s)"] update_edge_step[of now s]
    by (simp only: ticks_Cons lerp_closed_step list.size) simp
qed

lemma update_in_order_fields: "update_in_order update_fields now s = update now s"
  by (simp add: update_in_order_def update_def Let_def update_smoothing)

lemma setSimLevel_fold_targetEdge: "targetEdge (fold setSimLevel_entry ps s) = targetEdge s"
proof (induction ps arbitrary: s)
  case Nil
  show ?case by simp
next
  case (Cons p ps)
  obtain d v where p: "p = (d, v)" by (cases p)
  have a: "targetEdge (assign_target d v s) = targetEdge s"
    by (simp add: assign_target_def Let_def)
  show ?case using Cons.IH[of s] Cons.IH[of "assign_target d v s"] a
    by (simp add: p setSimLevel_entry_def)
qed

lemma setSimLevel_targetEdge:
  "targetEdge (setSimLevel level s) = edge (simLevels ! (level mod length simLevels))"
  by (simp add: setSimLevel_def Let_def setSimLevel_fold_targetEdge)

lemma wf_constructor: "wf constructor"
  by (auto simp: wf_def constructor_def domains_def split: if_splits)

text \<open>
  Claim C1. After \<open>N\<close> calls of \<^verbatim>\<open>update\<close> with nothing in between, the edge score is
  \<open>target - (target - current\<^sub>0) * (1 - 0.02) ^ N\<close> and the target is what it was; one call
  moves the edge score by \<open>(target - current) * 0.02\<close>. In a well-formed state the score
  of every domain that has a target entry follows the same recurrence and the same closed
  form, with the score its target entry held at the start, and that target score is still
  the same afterwards; and taking the smoothing steps of one \<^verbatim>\<open>update\<close> in any other
  order, each field once, gives the same result as the code's order.
\<close>

theorem smoothing_closed_form:
  "edgeScore (ticks nows s) =
     targetEdge s - (targetEdge s - edgeScore s) * (1 - 0.02) ^ length nows \<and>
   targetEdge (ticks nows s) = targetEdge s \<and>
   edgeScore (fst (update now s)) = edgeScore s + (targetEdge s - edgeScore s) * 0.02 \<and>
   (wf s \<longrightarrow>
      (\<forall>d r t. map_of domains d = Some r \<and> map_of (targetDomains s) d = Some t \<longrightarrow>
         store (fst (update now s)) r = store s r + (store s t - store s r) * 0.02 \<and>
         store (ticks nows s) r =
           store s t - (store s t - store s r) * (1 - 0.02) ^ length nows \<and>
         store (ticks nows s) t = store s t) \<and>
      (\<forall>fs. distinct fs \<and> set fs = set update_fields \<longrightarrow>
         update_in_order fs now s = update now s))"
proof -
  have k: "1 - lerpSpeed = 1 - 0.02" by (simp add: lerpSpeed_def)
  have e: "edgeScore (ticks nows s) =
           targetEdge s - (targetEdge s - edgeScore s) * (1 - 0.02) ^ length nows \<and>
         targetEdge (ticks nows s) = targetEdge s"
    using ticks_edge_closed[of nows s] unfolding k by blast
  have e1: "edgeScore (fst (update now s)) = edgeScore s + (targetEdge s - edgeScore s) * 0.02"
    using update_edge_step[of now s] by (simp add: lerp_affine lerpSpeed_def)
  have d: "store (fst (update now s)) r = store s r + (store s t - store s r) * 0.02 \<and>
           store (ticks nows s) r =
              store s t - (store s t - store s r) * (1 - 0.02) ^ length nows \<and>
            store (ticks nows s) t = store s t"
    if w: "wf s" and "map_of domains d = Some r" "map_of (targetDomains s) d = Some t" for d r t
  proof -
    have "store (fst (update now s)) r = store s r + (store s t - store s r) * 0.02"
      using update_domain(1)[OF that, of now] by (simp add: lerp_affine lerpSpeed_def)
    then show ?thesis using ticks_domain[OF that, of nows] unfolding k by blast
  qed
  have o: "update_in_order fs now s = update now s"
    if w: "wf s" and "distinct fs" "set fs = set update_fields" for fs
  proof -
    have "fold smooth_field fs s = fold smooth_field update_fields s"
      by (rule order_independent[OF that])
    then have "update_in_order fs now s = update_in_order update_fields now s"
      by (simp add: update_in_order_def)
    then show ?thesis by (simp add: update_in_order_fields)
  qed
  show ?thesis using e e1 d o by blast
qed

theorem smoothing_closed_form_witness:
  "wf (mousePressed constructor) \<and>
   edgeScore (ticks [0, 16] (mousePressed constructor)) = 0.22 - (0.22 - 0.1) * (1 - 0.02) ^ 2 \<and>
   map_of domains ''Markets'' = Some 0 \<and>
   map_of (targetDomains (mousePressed constructor)) ''Markets'' = Some 5 \<and>
   store (ticks [0, 16] (mousePressed constructor)) 0 = 0.18 - (0.18 - 0.01) * (1 - 0.02) ^ 2 \<and>
   distinct (rev update_fields) \<and> set (rev update_fields) = set update_fields \<and>
   update_in_order (rev update_fields) 16 (mousePressed constructor) = update 16 (mousePressed constructor)"
proof -
  let ?s = "mousePressed constructor"
  have w: "wf ?s"
  proof -
    have "wf (constructor\<lparr>simMode := True\<rparr>)" using wf_constructor by (simp add: wf_def)
    then show ?thesis by (simp add: mousePressed_def nextSimLevel_def setSimLevel_wf)
  qed
  have te: "targetEdge ?s = 0.22"
    by (simp add: mousePressed_def nextSimLevel_def setSimLevel_targetEdge constructor_def
        simLevels_def mk_sim_def)
  have es: "edgeScore ?s = 0.1"
    using mousePressed_extends[of constructor] by (simp add: heap_extends_def constructor_def)
  have m: "map_of domains ''Markets'' = Some 0" by (simp add: domains_def)
  have tm: "map_of (targetDomains ?s) ''Markets'' = Some 5 \<and> store ?s 5 = 0.18 \<and> store ?s 0 = 0.01"
    by (simp add: mousePressed_def nextSimLevel_def setSimLevel_def setSimLevel_entry_def
        simLevels_def mk_sim_def constructor_def domains_def assign_target_def Let_def)
  have di: "distinct (rev update_fields) \<and> set (rev update_fields) = set update_fields"
    by (simp add: update_fields_distinct)
  note th = smoothing_closed_form[of "[0, 16]" ?s 16]
  have l: "length [0, 16 :: real] = 2" by simp
  have "edgeScore (ticks [0, 16] ?s) =
          targetEdge ?s - (targetEdge ?s - edgeScore ?s) * (1 - 0.02) ^ length [0, 16 :: real]"
    using th by blast
  then have a: "edgeScore (ticks [0, 16] ?s) = 0.22 - (0.22 - 0.1) * (1 - 0.02) ^ 2"
    unfolding te es l .
  have s5: "store ?s 5 = 0.18" and s0: "store ?s 0 = 0.01" using tm by blast+
  have "store (ticks [0, 16] ?s) 0 =
          store ?s 5 - (store ?s 5 - store ?s 0) * (1 - 0.02) ^ length [0, 16 :: real]"
    using th w m tm by blast
  then have b: "store (ticks [0, 16] ?s) 0 = 0.18 - (0.18 - 0.01) * (1 - 0.02) ^ 2"
    unfolding s5 s0 l .
  have c: "update_in_order (rev update_fields) 16 ?s = update 16 ?s"
    using th w di by blast
  show ?thesis using w a m tm b di c by blast
qed

section \<open>Shared data module: a fetch that fails validation\<close>

lemma wf_connected: "wf connected"
  using wf_constructor by (simp add: wf_def connected_def)

text \<open>
  Claim C2, as amended. A fetch that fails validation (the request is rejected or timed
  out, the status is not OK, the content type is not JSON, the body does not parse, or the
  parsed value has no numeric \<^verbatim>\<open>edge_score\<close> or no truthy \<^verbatim>\<open>regime\<close>) makes
  \<^verbatim>\<open>fetchLive\<close> return \<^verbatim>\<open>null\<close>. The state is left as it was, targets included, but for
  two fields: \<^verbatim>\<open>apiAvailable\<close> becomes false and the mode ends as simulation, whatever
  it was. A body that does not parse is such a fetch.
\<close>

theorem fetchLive_validation_failure:
  "(validate_response JSON_parse resp = Inl e \<longrightarrow>
      fetchLive JSON_parse resp s = (s\<lparr>apiAvailable := False, simMode := True\<rparr>, None)) \<and>
   (JSON_parse body = None \<longrightarrow>
      fetchLive JSON_parse (Response ok contentType body) s =
        (s\<lparr>apiAvailable := False, simMode := True\<rparr>, None))"
proof -
  have a: "fetchLive JSON_parse r s = (s\<lparr>apiAvailable := False, simMode := True\<rparr>, None)"
    if "validate_response JSON_parse r = Inl x" for r x
    using that by (simp add: fetchLive_def catch_failure_def Let_def)
  have b: "\<exists>x. validate_response JSON_parse (Response ok contentType body) = Inl x"
    if "JSON_parse body = None"
    using that by (simp add: validate_response_def split: option.splits)
  show ?thesis using a b by blast
qed

theorem fetchLive_validation_failure_witness:
  "validate_response (\<lambda>t. None) (Response True (Some ''application/json'') ''{not json'')
     = Inl ParseError \<and>
   fetchLive (\<lambda>t. None) (Response True (Some ''application/json'') ''{not json'') connected
     = (connected\<lparr>apiAvailable := False, simMode := True\<rparr>, None) \<and>
   fetchLive (\<lambda>t. None) (Response True (Some ''application/json'') ''{not json'') constructor
     = (constructor\<lparr>apiAvailable := False, simMode := True\<rparr>, None)"
proof -
  have v: "validate_response (\<lambda>t. None) (Response True (Some ''application/json'') ''{not json'')
             = Inl ParseError"
    by (simp add: validate_response_def)
  show ?thesis
    using v
      fetchLive_validation_failure[of "\<lambda>t. None"
        "Response True (Some ''application/json'') ''{not json''" ParseError connected]
      fetchLive_validation_failure[of "\<lambda>t. None" _ _ constructor "''{not json''" True
        "Some ''application/json''"]
    by simp
qed

text \<open>
  The claim as written also keeps the mode in every starting mode. In live mode the same
  malformed body switches the instance to simulation.
\<close>

theorem fetchLive_failure_leaves_live_mode:
  "simMode (fst (fetchLive (\<lambda>t. None)
      (Response True (Some ''application/json'') ''{not json'') connected))
   \<noteq> simMode connected"
  by (simp add: fetchLive_def validate_response_def catch_failure_def connected_def
      constructor_def)

section \<open>Shared data module: the values on display move only in update\<close>

lemma update_current:
  assumes w: "wf s"
  shows "current_scores (fst (update now s)) =
     (lerp (edgeScore s) (targetEdge s) lerpSpeed,
      map (\<lambda>(d, r). (d, case target_score s d of
                            None \<Rightarrow> store s r
                          | Some tv \<Rightarrow> lerp (store s r) tv lerpSpeed)) domains)"
proof -
  have dom: "store (fst (update now s)) r =
      (case target_score s d of None \<Rightarrow> store s r | Some tv \<Rightarrow> lerp (store s r) tv lerpSpeed)"
    if "(d, r) \<in> set domains" for d r
  proof -
    have m: "map_of domains d = Some r" using that by (auto simp: domains_def)
    have r5: "r < 5" and rn: "fst (domains ! r) = d" using domains_Some[OF m] by auto
    show ?thesis
    proof (cases "map_of (targetDomains s) d")
      case None
      then show ?thesis using r5 rn
        by (simp add: update_store[OF w] smoothed_store_def target_score_def)
    next
      case (Some t)
      then show ?thesis using update_domain(1)[OF w m Some]
        by (simp add: target_score_def)
    qed
  qed
  have "map (\<lambda>(d, r). (d, store (fst (update now s)) r)) domains =
        map (\<lambda>(d, r). (d, case target_score s d of
                            None \<Rightarrow> store s r
                          | Some tv \<Rightarrow> lerp (store s r) tv lerpSpeed)) domains"
    by (rule map_cong[OF refl]) (auto simp: dom)
  then show ?thesis
    by (simp add: current_scores_def update_edge_step)
qed

lemma wf_step: "wf s \<Longrightarrow> wf (step P ev s)"
proof (cases ev)
  case (Tick now)
  assume "wf s" then show ?thesis using Tick by (simp add: update_wf)
next
  case Click
  assume w: "wf s"
  have "wf (s\<lparr>simMode := True\<rparr>)" using w by (simp add: wf_def)
  then show ?thesis using Click by (simp add: mousePressed_def nextSimLevel_def setSimLevel_wf)
next
  case Space
  assume "wf s" then show ?thesis using Space
    by (simp add: keyPressed_space_def toggleSimMode_def Let_def wf_def)
next
  case (FetchBack resp)
  assume "wf s" then show ?thesis using FetchBack by (simp add: fetchLive_wf)
next
  case (InitialFetchBack resp)
  assume w: "wf s"
  obtain s' r where f: "fetchLive P resp s = (s', r)" by (cases "fetchLive P resp s")
  have a: "wf s'" using fetchLive_wf[OF w, of P resp] f by simp
  have b: "wf (s'\<lparr>apiAvailable := True, simMode := False\<rparr>)" using a by (simp add: wf_def)
  show ?thesis using a b InitialFetchBack by (simp add: tryInitialFetch_def f split: option.splits)
qed

lemma wf_run: "wf (fst x) \<Longrightarrow> wf (fst (run P evs x))"
  by (induction evs arbitrary: x) (simp_all add: wf_step)

lemma wf_reachable: "wf (fst (run P evs (constructor, False)))"
  by (rule wf_run) (simp add: wf_constructor)

text \<open>
  Claim C3, as amended. In a well-formed state, whatever happens to the instance, the edge
  score and every domain score on display keep their values unless the event is a call of
  \<^verbatim>\<open>update\<close>; a call of \<^verbatim>\<open>update\<close> moves each of them one smoothing step toward its
  target. A fetch coming back, a ladder advance and the mode toggle write targets (and
  the regime and the fragility), never these scores.
\<close>

theorem current_changes_only_by_smoothing:
  assumes w: "wf s"
  shows "current_scores (step P ev s) =
     (case ev of
        Tick now \<Rightarrow>
          (lerp (edgeScore s) (targetEdge s) lerpSpeed,
           map (\<lambda>(d, r). (d, case target_score s d of
                                 None \<Rightarrow> store s r
                               | Some tv \<Rightarrow> lerp (store s r) tv lerpSpeed)) domains)
      | _ \<Rightarrow> current_scores s)"
proof -
  have n: "5 \<le> nextRef s" using w by (simp add: wf_def)
  show ?thesis
  proof (cases ev)
    case (Tick now)
    then show ?thesis using update_current[OF w] by simp
  next
    case Click
    then show ?thesis using current_scores_extends[OF mousePressed_extends n] by simp
  next
    case Space
    then show ?thesis using current_scores_extends[OF toggleSimMode_extends n]
      by (simp add: keyPressed_space_def)
  next
    case (FetchBack resp)
    then show ?thesis using current_scores_extends[OF fetchLive_extends n] by simp
  next
    case (InitialFetchBack resp)
    then show ?thesis using current_scores_extends[OF tryInitialFetch_extends n] by simp
  qed
qed

theorem current_changes_only_by_smoothing_witness:
  "wf constructor \<and>
   current_scores (step (\<lambda>t. None) Click constructor) = current_scores constructor \<and>
   current_scores constructor = (0.1, [(''Markets'', 0.01), (''Climate'', 0.01), (''Information'', 0.01),
      (''Social/Conflict'', 0.01), (''Supply Chain'', 0.5)])"
proof -
  have a: "current_scores (step (\<lambda>t. None) Click constructor) = current_scores constructor"
    using current_changes_only_by_smoothing[OF wf_constructor, of "\<lambda>t. None" Click] by simp
  have b: "current_scores constructor = (0.1, [(''Markets'', 0.01), (''Climate'', 0.01),
      (''Information'', 0.01), (''Social/Conflict'', 0.01), (''Supply Chain'', 0.5)])"
    by (simp add: current_scores_def constructor_def domains_def)
  show ?thesis using a b wf_constructor by blast
qed

text \<open>
  The claim as written counts the regime and the fragility among the values that are only
  smoothed. They have no target: \<^verbatim>\<open>setSimLevel\<close> assigns both at once.
\<close>

theorem setSimLevel_assigns_regime_and_fragility:
  "regime constructor = JStr ''CALM'' \<and> regime (setSimLevel 4 constructor) = JStr ''STRESSED''
   \<and> fragility constructor = JNum 0 \<and> fragility (setSimLevel 4 constructor) = JNum 0.65"
  by (simp add: setSimLevel_def setSimLevel_entry_def simLevels_def mk_sim_def constructor_def domains_def assign_target_def Let_def)

section \<open>Shared data module: what a successful fetch writes\<close>

lemma validate_example:
  assumes "P body = Some data" "read_prop data ''edge_score'' = JNum x" "truthy (read_prop data ''regime'')" 
  and "data \<noteq> JNull" "data \<noteq> JUndefined"
  shows "validate_response P (Response True (Some ''application/json'') body) = Inr data"
  using assms by (cases data) (simp_all add: validate_response_def)

lemma fetchLive_example:
  assumes p: "P body = Some example_payload" and live: "\<not> simMode s"
  shows "fetchLive P (Response True (Some ''application/json'') body) s =
     (s\<lparr>targetEdge := 0.42, fragility := JNum 0.3, momentum := JNum 0,
        regime := JStr ''STRESSED'', lastUpdate := JUndefined,
        store := (store s)(nextRef s := 0.5), nextRef := Suc (nextRef s),
        targetDomains := AList.update ''Markets'' (nextRef s) (targetDomains s),
        apiAvailable := True\<rparr>, Some example_payload)"
proof -
  have v: "validate_response P (Response True (Some ''application/json'') body) = Inr example_payload"
    by (rule validate_example[of P body example_payload "0.42"])
       (simp_all add: p example_payload_def read_prop_def)
  have l: "live_update example_payload s =
     (s\<lparr>targetEdge := 0.42, fragility := JNum 0.3, momentum := JNum 0,
        regime := JStr ''STRESSED'', lastUpdate := JUndefined,
        store := (store s)(nextRef s := 0.5), nextRef := Suc (nextRef s),
        targetDomains := AList.update ''Markets'' (nextRef s) (targetDomains s)\<rparr>, None)"
    by (simp add: live_update_def example_payload_def read_prop_def or_zero_def
        domains_truthy_def domains_def assign_target_def Let_def)
  show ?thesis using live by (simp add: fetchLive_def v l)
qed

lemma fetchLive_example_targets:
  assumes p: "P body = Some example_payload" and live: "\<not> simMode s" and w: "wf s"
  shows "targetEdge (fst (fetchLive P (Response True (Some ''application/json'') body) s)) = 0.42"
    and "regime (fst (fetchLive P (Response True (Some ''application/json'') body) s)) = JStr ''STRESSED''"
    and "target_score (fst (fetchLive P (Response True (Some ''application/json'') body) s)) ''Markets'' = Some 0.5"
    and "d \<noteq> ''Markets'' \<Longrightarrow>
         target_score (fst (fetchLive P (Response True (Some ''application/json'') body) s)) d = target_score s d"
    and "current_scores (fst (fetchLive P (Response True (Some ''application/json'') body) s)) = current_scores s"
proof -
  note f = fetchLive_example[of P body s, OF p live]
  show "targetEdge (fst (fetchLive P (Response True (Some ''application/json'') body) s)) = 0.42"
    by (simp add: f)
  show "regime (fst (fetchLive P (Response True (Some ''application/json'') body) s)) = JStr ''STRESSED''"
    by (simp add: f)
  show "target_score (fst (fetchLive P (Response True (Some ''application/json'') body) s)) ''Markets'' = Some 0.5"
    by (simp add: f target_score_def update_conv')
  show "target_score (fst (fetchLive P (Response True (Some ''application/json'') body) s)) d = target_score s d"
    if "d \<noteq> ''Markets''"
  proof (cases "map_of (targetDomains s) d")
    case None
    then show ?thesis using that by (simp add: f target_score_def update_conv')
  next
    case (Some t)
    then have "t < nextRef s" using w by (auto simp: wf_def)
    then show ?thesis using that Some by (simp add: f target_score_def update_conv')
  qed
  show "current_scores (fst (fetchLive P (Response True (Some ''application/json'') body) s)) = current_scores s"
    using current_scores_extends[OF fetchLive_extends] w by (simp add: wf_def)
qed

lemma fetchLive_inherited_key:
  assumes p: "P body = Some inherited_key_payload" and live: "\<not> simMode s"
  shows "fetchLive P (Response True (Some ''application/json'') body) s =
     (s\<lparr>targetEdge := 0.42, fragility := JNum 0.3, momentum := JNum 0,
        regime := JStr ''STRESSED'', lastUpdate := JUndefined,
        store := (store s)(nextRef s := 0.5), nextRef := Suc (nextRef s),
        targetDomains := AList.update ''toString'' (nextRef s) (targetDomains s),
        apiAvailable := True\<rparr>, Some inherited_key_payload)"
proof -
  have v: "validate_response P (Response True (Some ''application/json'') body) = Inr inherited_key_payload"
    by (rule validate_example[of P body inherited_key_payload "0.42"])
       (simp_all add: p inherited_key_payload_def read_prop_def)
  have l: "live_update inherited_key_payload s =
     (s\<lparr>targetEdge := 0.42, fragility := JNum 0.3, momentum := JNum 0,
        regime := JStr ''STRESSED'', lastUpdate := JUndefined,
        store := (store s)(nextRef s := 0.5), nextRef := Suc (nextRef s),
        targetDomains := AList.update ''toString'' (nextRef s) (targetDomains s)\<rparr>, None)"
    by (simp add: live_update_def inherited_key_payload_def read_prop_def or_zero_def
        domains_truthy_def Object_prototype_props_def domains_def assign_target_def Let_def)
  show ?thesis using live by (simp add: fetchLive_def v l)
qed

lemma connected_reachable:
  assumes "P body = Some example_payload"
  shows "tryInitialFetch P (Response True (Some ''application/json'') body) constructor = connected"
proof -
  have v: "validate_response P (Response True (Some ''application/json'') body) = Inr example_payload"
    by (rule validate_example[of P body example_payload "0.42"])
       (simp_all add: assms example_payload_def read_prop_def)
  have s: "simMode constructor" by (simp add: constructor_def)
  have e: "truthy example_payload \<and> read_prop example_payload ''edge_score'' \<noteq> JUndefined"
    by (simp add: example_payload_def read_prop_def)
  show ?thesis
    using s e by (simp add: tryInitialFetch_def fetchLive_def v connected_def)
qed

text \<open>
  Claim C4. The well-formed payload of the claim does what the claim says
  (\<open>fetchLive_example_targets\<close>). The general part does not hold of the code. In live
  mode, a payload whose entry for the known domain \<^verbatim>\<open>Markets\<close> is \<^verbatim>\<open>null\<close> is not a
  payload with that key dropped: reading \<^verbatim>\<open>.score\<close> of \<^verbatim>\<open>null\<close> throws after the
  target edge score, fragility, momentum, regime and timestamp have been overwritten, and
  the \<^verbatim>\<open>catch\<close> block reports a failure, returns \<^verbatim>\<open>null\<close> and switches to
  simulation. (An unknown key named like a member of \<^verbatim>\<open>Object.prototype\<close> is not dropped
  either: \<open>fetchLive_inherited_key\<close>.)
\<close>

theorem fetchLive_null_entry_aborts:
  assumes p: "P body = Some null_entry_payload" and live: "\<not> simMode s"
  shows "fetchLive P (Response True (Some ''application/json'') body) s =
     (s\<lparr>targetEdge := 0.42, fragility := JNum 0.3, momentum := JNum 0,
        regime := JStr ''STRESSED'', lastUpdate := JUndefined,
        apiAvailable := False, simMode := True\<rparr>, None)"
proof -
  have v: "validate_response P (Response True (Some ''application/json'') body) = Inr null_entry_payload"
    by (rule validate_example[of P body null_entry_payload "0.42"])
       (simp_all add: p null_entry_payload_def read_prop_def)
  have l: "live_update null_entry_payload s =
     (s\<lparr>targetEdge := 0.42, fragility := JNum 0.3, momentum := JNum 0,
        regime := JStr ''STRESSED'', lastUpdate := JUndefined\<rparr>, Some TypeError)"
    by (simp add: live_update_def null_entry_payload_def read_prop_def or_zero_def
        domains_truthy_def domains_def Let_def)
  show ?thesis using live by (simp add: fetchLive_def v l catch_failure_def Let_def)
qed

theorem fetchLive_null_entry_aborts_witness:
  "\<not> simMode connected \<and>
   fetchLive (\<lambda>t. Some null_entry_payload) (Response True (Some ''application/json'') ''{}'') connected =
     (connected\<lparr>targetEdge := 0.42, fragility := JNum 0.3, momentum := JNum 0,
        regime := JStr ''STRESSED'', lastUpdate := JUndefined,
        apiAvailable := False, simMode := True\<rparr>, None)"
proof -
  have a: "\<not> simMode connected" by (simp add: connected_def constructor_def)
  show ?thesis
    using a fetchLive_null_entry_aborts[of "\<lambda>t. Some null_entry_payload" "''{}''" connected] by simp
qed

section \<open>Shared data module: the mode toggle without a working feed\<close>

lemma toggle_noop: "\<not> apiAvailable s \<Longrightarrow> toggleSimMode s = (s, False)"
  by (simp add: toggleSimMode_def)

lemma fetchLive_None:
  assumes "snd (fetchLive P resp s) = None"
  shows "simMode (fst (fetchLive P resp s)) \<and> \<not> apiAvailable (fst (fetchLive P resp s))"
proof (cases "validate_response P resp")
  case (Inl e)
  then show ?thesis by (simp add: fetchLive_def catch_failure_def Let_def)
next
  case (Inr data)
  obtain s' r where l: "(if \<not> simMode s then live_update data s else (s, None)) = (s', r)"
    by (cases "if \<not> simMode s then live_update data s else (s, None)")
  show ?thesis
  proof (cases r)
    case None
    then show ?thesis using assms Inr l by (simp add: fetchLive_def)
  next
    case (Some e)
    then show ?thesis using Inr l by (simp add: fetchLive_def catch_failure_def Let_def)
  qed
qed

lemma setSimLevel_fold_flags:
  "simMode (fold setSimLevel_entry ps s) = simMode s
   \<and> apiAvailable (fold setSimLevel_entry ps s) = apiAvailable s"
proof (induction ps arbitrary: s)
  case Nil
  show ?case by simp
next
  case (Cons p ps)
  obtain d v where p: "p = (d, v)" by (cases p)
  have a: "simMode (assign_target d v s) = simMode s \<and> apiAvailable (assign_target d v s) = apiAvailable s"
    by (simp add: assign_target_def Let_def)
  show ?case using Cons.IH[of s] Cons.IH[of "assign_target d v s"] a
    by (simp add: p setSimLevel_entry_def)
qed

lemma setSimLevel_flags: "simMode (setSimLevel l s) \<and> apiAvailable (setSimLevel l s) = apiAvailable s"
  by (simp add: setSimLevel_def Let_def setSimLevel_fold_flags)

lemma step_sim:
  assumes "simMode s \<and> \<not> apiAvailable s" "\<not> fetch_returned P ev s"
  shows "simMode (step P ev s) \<and> \<not> apiAvailable (step P ev s)"
proof (cases ev)
  case (Tick now)
  then show ?thesis using assms update_flags by simp
next
  case Click
  then show ?thesis using assms setSimLevel_flags
    by (simp add: mousePressed_def nextSimLevel_def)
next
  case Space
  then show ?thesis using assms by (simp add: keyPressed_space_def toggle_noop)
next
  case (FetchBack resp)
  then show ?thesis using assms fetchLive_None by simp
next
  case (InitialFetchBack resp)
  then have n: "snd (fetchLive P resp s) = None" using assms by simp
  obtain s' where f: "fetchLive P resp s = (s', None)" using n by (cases "fetchLive P resp s") auto
  show ?thesis using InitialFetchBack fetchLive_None[OF n] by (simp add: tryInitialFetch_def f)
qed

lemma run_sim:
  "snd x \<or> (simMode (fst x) \<and> \<not> apiAvailable (fst x)) \<Longrightarrow>
   snd (run P evs x) \<or> (simMode (fst (run P evs x)) \<and> \<not> apiAvailable (fst (run P evs x)))"
proof (induction evs arbitrary: x)
  case Nil
  then show ?case by simp
next
  case (Cons ev evs)
  have "snd (step P ev (fst x), snd x \<or> fetch_returned P ev (fst x)) \<or>
        (simMode (fst (step P ev (fst x), snd x \<or> fetch_returned P ev (fst x))) \<and>
         \<not> apiAvailable (fst (step P ev (fst x), snd x \<or> fetch_returned P ev (fst x))))"
    using Cons.prems step_sim[of "fst x" P ev] by auto
  from Cons.IH[OF this] show ?case by simp
qed

text \<open>
  Claim C5. When \<^verbatim>\<open>apiAvailable\<close> is false, \<^verbatim>\<open>toggleSimMode\<close> changes nothing and starts
  no fetch. And as long as no fetch has succeeded since the constructor ran, whatever else
  has happened, the instance is in simulation mode and the toggle still changes nothing.
\<close>

theorem toggle_refused_without_api:
  "(\<not> apiAvailable s \<longrightarrow> toggleSimMode s = (s, False)) \<and>
   (\<not> snd (run P evs (constructor, False)) \<longrightarrow>
      simMode (fst (run P evs (constructor, False))) \<and>
      toggleSimMode (fst (run P evs (constructor, False))) = (fst (run P evs (constructor, False)), False))"
proof -
  have "snd (run P evs (constructor, False)) \<or>
     (simMode (fst (run P evs (constructor, False))) \<and> \<not> apiAvailable (fst (run P evs (constructor, False))))"
    by (rule run_sim) (simp add: constructor_def)
  then show ?thesis by (auto simp: toggle_noop)
qed

theorem toggle_refused_without_api_witness:
  "\<not> apiAvailable constructor \<and> toggleSimMode constructor = (constructor, False) \<and>
   \<not> snd (run (\<lambda>t. None) [Space, Click, Space] (constructor, False)) \<and>
   simMode (fst (run (\<lambda>t. None) [Space, Click, Space] (constructor, False)))"
proof -
  have a: "\<not> apiAvailable constructor" by (simp add: constructor_def)
  have b: "\<not> snd (run (\<lambda>t. None) [Space, Click, Space] (constructor, False))" by simp
  show ?thesis
    using a b toggle_refused_without_api[of constructor "\<lambda>t. None" "[Space, Click, Space]"]
    by blast
qed

section \<open>Pulse scene: the history buffers stay full and first-in first-out\<close>

lemma push_history_fifo:
  "push_history h v = (if length h < maxHistory then h @ [v] else tl h @ [v])"
  by (cases h) (auto simp: push_history_def Let_def maxHistory_def)

lemma push_history_length:
  "length h \<le> maxHistory \<Longrightarrow> length (push_history h v) = min maxHistory (Suc (length h))"
  by (cases h) (auto simp: push_history_fifo maxHistory_def)

lemma draw_domain_effect:
  assumes "map_of (domainHistories p) d = Some h"
  shows "\<exists>p'. draw_domain noise phase beat s (i, d, r) p = Some p' \<and> history p' = history p \<and>
           map_of (domainHistories p') =
             (map_of (domainHistories p))
               (d \<mapsto> push_history h (domain_sample noise phase beat s i r))"
  using assms by (simp add: draw_domain_def update_conv')

lemma draw_domains_effect:
  assumes "distinct (map (\<lambda>x. fst (snd x)) idrs)"
    and "list_all (\<lambda>(i, d, r). map_of (domainHistories p) d \<noteq> None) idrs"
  shows "\<exists>p'. draw_domains noise phase beat s idrs p = Some p' \<and> history p' = history p \<and>
           (\<forall>d. map_of (domainHistories p') d =
              (case find (\<lambda>(i, d', r). d' = d) idrs of
                 None \<Rightarrow> map_of (domainHistories p) d
               | Some (i, d', r) \<Rightarrow>
                   map_option (\<lambda>h. push_history h (domain_sample noise phase beat s i r))
                     (map_of (domainHistories p) d)))"
  using assms
proof (induction idrs arbitrary: p)
  case Nil
  then show ?case by simp
next
  case (Cons idr idrs)
  obtain i d r where idr: "idr = (i, d, r)" by (cases idr)
  obtain h where h: "map_of (domainHistories p) d = Some h" using Cons.prems(2) idr by auto
  obtain p1 where p1: "draw_domain noise phase beat s (i, d, r) p = Some p1"
    "history p1 = history p"
    "map_of (domainHistories p1) = (map_of (domainHistories p))(d \<mapsto> push_history h (domain_sample noise phase beat s i r))"
    using draw_domain_effect[OF h, of noise phase beat s i r] by blast
  have dis: "distinct (map (\<lambda>x. fst (snd x)) idrs)" and dnot: "d \<notin> set (map (\<lambda>x. fst (snd x)) idrs)"
    using Cons.prems(1) idr by auto
  have all1: "list_all (\<lambda>(i, d, r). map_of (domainHistories p1) d \<noteq> None) idrs"
    using Cons.prems(2) p1(3) by (auto simp: list_all_iff)
  obtain p' where p': "draw_domains noise phase beat s idrs p1 = Some p'" "history p' = history p1"
    "\<forall>d. map_of (domainHistories p') d =
              (case find (\<lambda>(i, d', r). d' = d) idrs of
                 None \<Rightarrow> map_of (domainHistories p1) d
               | Some (i, d', r) \<Rightarrow>
                   map_option (\<lambda>h. push_history h (domain_sample noise phase beat s i r))
                     (map_of (domainHistories p1) d))"
    using Cons.IH[OF dis all1] by blast
  have nf: "find (\<lambda>(i, d', r). d' = d) idrs = None"
    using dnot by (force simp: find_None_iff image_iff)
  have "map_of (domainHistories p') e =
              (case find (\<lambda>(i, d', r). d' = e) (idr # idrs) of
                 None \<Rightarrow> map_of (domainHistories p) e
               | Some (i, d', r) \<Rightarrow>
                   map_option (\<lambda>h. push_history h (domain_sample noise phase beat s i r))
                     (map_of (domainHistories p) e))" for e
  proof (cases "e = d")
    case True
    then show ?thesis using p'(3) nf p1(3) h idr by simp
  next
    case False
    then show ?thesis using p'(3) p1(3) idr by (auto split: option.splits)
  qed
  then show ?case using p1 p' idr by simp
qed

lemma enumerate_domains:
  "enumerate 0 domains =
     [(0, ''Markets'', 0), (1, ''Climate'', 1), (2, ''Information'', 2),
      (3, ''Social/Conflict'', 3), (4, ''Supply Chain'', 4)]"
  by (simp add: domains_def enumerate_eq_zip upt_rec)

lemma draw_history_effect:
  assumes b: "buffers_hold n p"
  shows "\<exists>p'. draw_history noise phase beat s p = Some p' \<and>
           history p' = push_history (history p) (main_sample beat s) \<and>
           (\<forall>d. map_of (domainHistories p') d =
              (case find (\<lambda>(i, d', r). d' = d) (enumerate 0 domains) of
                 None \<Rightarrow> map_of (domainHistories p) d
               | Some (i, d', r) \<Rightarrow>
                   map_option (\<lambda>h. push_history h (domain_sample noise phase beat s i r))
                     (map_of (domainHistories p) d)))"
proof -
  let ?p0 = "p\<lparr>history := push_history (history p) (main_sample beat s)\<rparr>"
  have d: "distinct (map (\<lambda>x. fst (snd x)) (enumerate 0 domains))"
    by (simp add: enumerate_domains)
  have a: "list_all (\<lambda>(i, d, r). map_of (domainHistories ?p0) d \<noteq> None) (enumerate 0 domains)"
    using b by (auto simp: buffers_hold_def enumerate_domains domains_def)
  have e: "domainHistories ?p0 = domainHistories p"
    "history ?p0 = push_history (history p) (main_sample beat s)"
    by simp_all
  from draw_domains_effect[OF d a, of noise phase beat s] show ?thesis
    unfolding draw_history_def e .
qed

lemma draw_history_holds:
  assumes b: "buffers_hold maxHistory p"
  shows "\<exists>p'. draw_history noise phase beat s p = Some p' \<and> buffers_hold maxHistory p' \<and>
           history p' = tl (history p) @ [main_sample beat s] \<and>
           list_all (\<lambda>(i, d, r). map_of (domainHistories p') d =
                map_option (\<lambda>h. tl h @ [domain_sample noise phase beat s i r])
                  (map_of (domainHistories p) d)) (enumerate 0 domains)"
proof -
  obtain p' where p': "draw_history noise phase beat s p = Some p'"
     "history p' = push_history (history p) (main_sample beat s)"
     "\<And>d. map_of (domainHistories p') d =
              (case find (\<lambda>(i, d', r). d' = d) (enumerate 0 domains) of
                 None \<Rightarrow> map_of (domainHistories p) d
               | Some (i, d', r) \<Rightarrow>
                   map_option (\<lambda>h. push_history h (domain_sample noise phase beat s i r))
                     (map_of (domainHistories p) d))"
    using draw_history_effect[OF b, of noise phase beat s] by blast
  have full: "length h = maxHistory \<Longrightarrow> push_history h v = tl h @ [v] \<and> length (tl h @ [v]) = maxHistory" for h v
    by (cases h) (auto simp: push_history_fifo maxHistory_def)
  have h: "history p' = tl (history p) @ [main_sample beat s]"
     and hl: "length (history p') = maxHistory"
    using p'(2) full[of "history p"] b by (auto simp: buffers_hold_def)
  have each: "map_option length (map_of (domainHistories p) d) = Some maxHistory \<Longrightarrow>
      find (\<lambda>(i, d', r). d' = d) (enumerate 0 domains) = Some (i, d, r) \<Longrightarrow>
      map_of (domainHistories p') d = map_option (\<lambda>h. tl h @ [domain_sample noise phase beat s i r])
                  (map_of (domainHistories p) d) \<and>
      map_option length (map_of (domainHistories p') d) = Some maxHistory" for d i r
    using full by (auto simp: p'(3))
  have pres: "list_all (\<lambda>d. map_option length (map_of (domainHistories p) d) = Some maxHistory) (map fst domains)"
    using b by (simp add: buffers_hold_def)
  have m: "map_of (domainHistories p') ''Markets'' = map_option (\<lambda>h. tl h @ [domain_sample noise phase beat s 0 0]) (map_of (domainHistories p) ''Markets'') \<and>
      map_option length (map_of (domainHistories p') ''Markets'') = Some maxHistory"
    using pres by (intro each) (simp_all add: enumerate_domains domains_def)
  have c: "map_of (domainHistories p') ''Climate'' = map_option (\<lambda>h. tl h @ [domain_sample noise phase beat s 1 1]) (map_of (domainHistories p) ''Climate'') \<and>
      map_option length (map_of (domainHistories p') ''Climate'') = Some maxHistory"
    using pres by (intro each) (simp_all add: enumerate_domains domains_def)
  have i: "map_of (domainHistories p') ''Information'' = map_option (\<lambda>h. tl h @ [domain_sample noise phase beat s 2 2]) (map_of (domainHistories p) ''Information'') \<and>
      map_option length (map_of (domainHistories p') ''Information'') = Some maxHistory"
    using pres by (intro each) (simp_all add: enumerate_domains domains_def)
  have so: "map_of (domainHistories p') ''Social/Conflict'' = map_option (\<lambda>h. tl h @ [domain_sample noise phase beat s 3 3]) (map_of (domainHistories p) ''Social/Conflict'') \<and>
      map_option length (map_of (domainHistories p') ''Social/Conflict'') = Some maxHistory"
    using pres by (intro each) (simp_all add: enumerate_domains domains_def)
  have su: "map_of (domainHistories p') ''Supply Chain'' = map_option (\<lambda>h. tl h @ [domain_sample noise phase beat s 4 4]) (map_of (domainHistories p) ''Supply Chain'') \<and>
      map_option length (map_of (domainHistories p') ''Supply Chain'') = Some maxHistory"
    using pres by (intro each) (simp_all add: enumerate_domains domains_def)
  have bh: "buffers_hold maxHistory p'"
    using hl m[THEN conjunct2] c[THEN conjunct2] i[THEN conjunct2] so[THEN conjunct2]
      su[THEN conjunct2]
    by (simp add: buffers_hold_def domains_def)
  have la: "list_all (\<lambda>(i, d, r). map_of (domainHistories p') d =
                map_option (\<lambda>h. tl h @ [domain_sample noise phase beat s i r])
                  (map_of (domainHistories p) d)) (enumerate 0 domains)"
    using m[THEN conjunct1] c[THEN conjunct1] i[THEN conjunct1] so[THEN conjunct1]
      su[THEN conjunct1]
    by (simp add: enumerate_domains)
  show ?thesis using p'(1) bh h la by blast
qed

lemma pulse_setup_holds: "buffers_hold maxHistory pulse_setup"
  by (simp add: buffers_hold_def pulse_setup_def domains_def)

lemma draw_frames_hold:
  "buffers_hold maxHistory p \<Longrightarrow>
     \<exists>p'. draw_frames noise frames p = Some p' \<and> buffers_hold maxHistory p'"
proof (induction frames arbitrary: p)
  case Nil
  then show ?case by simp
next
  case (Cons f frames)
  obtain phase beat s where f: "f = (phase, beat, s)" by (cases f)
  obtain p1 where p1: "draw_history noise phase beat s p = Some p1" "buffers_hold maxHistory p1"
    using draw_history_holds[OF Cons.prems, of noise phase beat s] by blast
  show ?case using Cons.IH[OF p1(2)] p1(1) f by simp
qed

text \<open>
  Claim C6. The capacity is 800. A push to a buffer of at most 800 samples leaves at most
  800: it appends the value, and when the buffer was full it removes the oldest sample
  and nothing else. A frame that finds the six buffers full pushes exactly one value to
  each and leaves each full, with the oldest sample gone and the new one last.
  \<^verbatim>\<open>setup\<close> leaves the buffers full, so after any number of frames they are full.
\<close>

theorem history_buffers_fifo:
  "maxHistory = 800 \<and>
   (length h \<le> maxHistory \<longrightarrow>
      length (push_history h v) \<le> maxHistory \<and>
      push_history h v = (if length h < maxHistory then h @ [v] else tl h @ [v])) \<and>
   (buffers_hold maxHistory p \<longrightarrow>
      (\<exists>p'. draw_history noise phase beatValue s p = Some p' \<and>
            buffers_hold maxHistory p' \<and>
            history p' = tl (history p) @ [main_sample beatValue s] \<and>
            list_all (\<lambda>(i, d, r). map_of (domainHistories p') d =
                 map_option (\<lambda>h. tl h @ [domain_sample noise phase beatValue s i r])
                   (map_of (domainHistories p) d)) (enumerate 0 domains))) \<and>
   buffers_hold maxHistory pulse_setup \<and>
   (\<exists>p'. draw_frames noise frames pulse_setup = Some p' \<and> buffers_hold maxHistory p')"
proof -
  have a: "length h \<le> maxHistory \<longrightarrow>
      length (push_history h v) \<le> maxHistory \<and>
      push_history h v = (if length h < maxHistory then h @ [v] else tl h @ [v])"
    using push_history_length[of h v] push_history_fifo[of h v] by simp
  show ?thesis
    using a draw_history_holds[of p noise phase beatValue s] pulse_setup_holds
      draw_frames_hold[OF pulse_setup_holds, of noise frames]
    by (simp add: maxHistory_def)
qed

theorem history_buffers_fifo_witness:
  "length [1, 2, 3 :: real] \<le> maxHistory \<and> push_history [1, 2, 3] 4 = [1, 2, 3, 4] \<and>
   buffers_hold maxHistory pulse_setup \<and>
   (\<exists>p'. draw_history (\<lambda>x. 0) 0 0 constructor pulse_setup = Some p' \<and>
         history p' = tl (history pulse_setup) @ [main_sample 0 constructor])"
proof -
  have l: "length [1, 2, 3 :: real] \<le> maxHistory" by (simp add: maxHistory_def)
  have "push_history [1, 2, 3] 4 = [1, 2, 3, 4 :: real]"
    using history_buffers_fifo[of "[1, 2, 3]" 4] l by (simp add: maxHistory_def)
  moreover have "buffers_hold maxHistory pulse_setup"
    using history_buffers_fifo[of "[]" 0 pulse_setup "\<lambda>x. 0" 0 0 constructor "[]"] by blast
  moreover from this have "\<exists>p'. draw_history (\<lambda>x. 0) 0 0 constructor pulse_setup = Some p' \<and>
         history p' = tl (history pulse_setup) @ [main_sample 0 constructor]"
    using history_buffers_fifo[of "[]" 0 pulse_setup "\<lambda>x. 0" 0 0 constructor "[]"] by blast
  ultimately show ?thesis using l by blast
qed

section \<open>Ocean scene: the blends of the flow field are scalar interpolations\<close>

text \<open>
  Claim C9, as amended. Each blend of a cell's angle, toward the direction of a domain
  current or toward the pointer, is a linear interpolation of the two angle values as
  plain numbers, \<open>angle + (target - angle) * w\<close>, applied inside the radius only, with
  \<open>w = influence * 0.5\<close> for a current and \<open>w = (1 - md / 150) * 0.3\<close> for the
  pointer. Nothing reduces the angles modulo a full turn: giving the target one more
  turn moves the result by \<open>2 * \<pi> * w\<close>.
\<close>

theorem flow_blend_scalar_lerp:
  "current_blend px py dc angle =
     (if current_dist px py dc < dc_radius dc
      then angle + (current_target px py dc - angle) *
             ((1 - current_dist px py dc / dc_radius dc) * dc_strength dc * 0.5)
      else angle) \<and>
   current_blend px py (dc\<lparr>dc_angle := dc_angle dc + 2 * pi\<rparr>) angle =
     current_blend px py dc angle +
       (if current_dist px py dc < dc_radius dc
        then 2 * pi * ((1 - current_dist px py dc / dc_radius dc) * dc_strength dc * 0.5)
        else 0) \<and>
   mouse_blend px py mouseX mouseY angle =
     (if sqrt ((mouseX - px) * (mouseX - px) + (mouseY - py) * (mouseY - py)) < 150
      then angle + (atan2 (mouseY - py) (mouseX - px) + pi - angle) *
             ((1 - sqrt ((mouseX - px) * (mouseX - px) + (mouseY - py) * (mouseY - py)) / 150) * 0.3)
      else angle)"
proof -
  have d: "current_dist px py (dc\<lparr>dc_angle := dc_angle dc + 2 * pi\<rparr>) = current_dist px py dc"
    by (simp add: current_dist_def)
  have t: "current_target px py (dc\<lparr>dc_angle := dc_angle dc + 2 * pi\<rparr>) = current_target px py dc + 2 * pi"
    by (simp add: current_target_def)
  have 1: "current_blend px py dc angle =
     (if current_dist px py dc < dc_radius dc
      then angle + (current_target px py dc - angle) *
             ((1 - current_dist px py dc / dc_radius dc) * dc_strength dc * 0.5)
      else angle)" for dc
    by (simp add: current_blend_def Let_def lerp_affine)
  have 2: "current_blend px py (dc\<lparr>dc_angle := dc_angle dc + 2 * pi\<rparr>) angle =
     current_blend px py dc angle +
       (if current_dist px py dc < dc_radius dc
        then 2 * pi * ((1 - current_dist px py dc / dc_radius dc) * dc_strength dc * 0.5)
        else 0)"
  proof -
    define W where "W = (1 - current_dist px py dc / dc_radius dc) * dc_strength dc * 0.5"
    have "angle + (current_target px py dc + 2 * pi - angle) * W =
          angle + (current_target px py dc - angle) * W + 2 * pi * W"
      by (simp add: algebra_simps)
    then show ?thesis unfolding 1 d t by (simp add: W_def)
  qed
  have 3: "mouse_blend px py mouseX mouseY angle =
     (if sqrt ((mouseX - px) * (mouseX - px) + (mouseY - py) * (mouseY - py)) < 150
      then angle + (atan2 (mouseY - py) (mouseX - px) + pi - angle) *
             ((1 - sqrt ((mouseX - px) * (mouseX - px) + (mouseY - py) * (mouseY - py)) / 150) * 0.3)
      else angle)"
    by (simp add: mouse_blend_def Let_def lerp_affine)
  show ?thesis using 1[of dc] 2 3 by blast
qed

lemma example_current_target: "current_target 200 200 example_current = pi / 2"
  by (simp add: current_target_def example_current_def atan2_def)

lemma example_current_blend: "current_blend 200 200 example_current (2 * pi) = 5 * pi / 4"
proof -
  have d: "current_dist 200 200 example_current = 0"
    by (simp add: current_dist_def example_current_def)
  have r: "dc_radius example_current = 100" "dc_strength example_current = 1"
    by (simp_all add: example_current_def)
  show ?thesis
    by (simp add: current_blend_def d r example_current_target lerp_def Let_def)
qed

lemma example_difference: "angleDifference (2 * pi) (pi / 2) = pi / 2"
proof -
  have "js_trunc ((pi / 2 - 2 * pi + pi) / (2 * pi)) = js_trunc (- (1 / 4))"
    by (simp add: field_simps)
  also have "\<dots> = 0"
  proof -
    have "\<lceil>- (1 / 4 :: real)\<rceil> = 0" by (rule ceiling_unique) simp_all
    then show ?thesis by (simp add: js_trunc_def)
  qed
  finally have "js_rem (pi / 2 - 2 * pi + pi) (2 * pi) = - (pi / 2)"
    by (simp add: js_rem_def)
  then show ?thesis by (simp add: angleDifference_def Let_def)
qed

text \<open>
  The claim as written has every blend take the shortest angular path. With the cell's
  angle at \<open>2 * \<pi>\<close> and the current's direction at \<open>\<pi> / 2\<close>, a quarter turn away, the
  half-way blend of the code is \<open>5 * \<pi> / 4\<close>: it went three quarters of a turn the other
  way round and points opposite to the shortest-path blend \<open>9 * \<pi> / 4\<close>.
\<close>

theorem flow_blend_long_way:
  "current_blend 200 200 example_current (2 * pi) = 5 * pi / 4 \<and>
   shortest_path_blend (2 * pi) (current_target 200 200 example_current) (1 / 2) = 9 * pi / 4 \<and>
   current_blend 200 200 example_current (2 * pi) =
     shortest_path_blend (2 * pi) (current_target 200 200 example_current) (1 / 2) - pi"
  by (simp add: example_current_blend example_current_target shortest_path_blend_def example_difference)


end
